theory Spec2Isabelle
  imports Complex_Main "HOL-Library.Sublist"
begin

section \<open>The dependency checker of index.js\<close>

text \<open>
  A shallow embedding of class \<open>DependencyChecker\<close> (src/index.js). Every method is a
  HOL function of the same name. What a method reads from outside the process (the
  static analyser, the package manager's commands, the lock file) is a parameter of the
  function; what it throws is the left summand of its result. Console output is not
  part of the model.
\<close>

subsection \<open>Values read from JSON text\<close>

text \<open>
  The values \<open>JSON.parse\<close> produces. An object keeps its entries in the order
  \<open>Object.entries\<close> lists them. The code looks at a number only to see whether it
  is truthy, so numbers are kept as integers.
\<close>

datatype json =
    JNull
  | JBool bool
  | JNum int
  | JStr string
  | JArr "json list"
  | JObj "(string \<times> json) list"

text \<open>What a \<open>catch\<close> clause sees of a thrown error: its message and, for an error of
  \<open>execSync\<close>, the standard output the child process wrote (\<open>error.stdout\<close>).\<close>

record js_error =
  message :: string
  stdout :: "string option"

definition TypeError :: "string \<Rightarrow> js_error" where
  "TypeError m = \<lparr>message = m, stdout = None\<rparr>"

definition SyntaxError :: "string \<Rightarrow> js_error" where
  "SyntaxError m = \<lparr>message = m, stdout = None\<rparr>"

text \<open>Truthiness of a value, as \<open>if (v)\<close> and \<open>v || d\<close> test it.\<close>

fun truthy :: "json \<Rightarrow> bool" where
  "truthy JNull = False"
| "truthy (JBool b) = b"
| "truthy (JNum n) = (n \<noteq> 0)"
| "truthy (JStr s) = (s \<noteq> [])"
| "truthy (JArr xs) = True"
| "truthy (JObj kvs) = True"

text \<open>Decimal rendering of a count, as a template literal \<open>${n}\<close> prints it.\<close>

fun digit_char :: "nat \<Rightarrow> char" where
  "digit_char n = char_of (48 + n)"

fun show_nat :: "nat \<Rightarrow> string" where
  "show_nat n = (if n < 10 then [digit_char n] else show_nat (n div 10) @ [digit_char (n mod 10)])"

text \<open>
  Property access \<open>v.k\<close> for the keys the code reads (none of them is a property of a
  prototype): \<open>None\<close> is \<open>undefined\<close>, and reading a property of \<open>null\<close> throws.
\<close>

fun get_prop :: "json \<Rightarrow> string \<Rightarrow> js_error + json option" where
  "get_prop JNull k = Inl (TypeError (''Cannot read properties of null (reading '' @ k @ '')''))"
| "get_prop (JObj kvs) k = Inr (map_of kvs k)"
| "get_prop v k = Inr None"

text \<open>\<open>Object.keys\<close>: the keys of an object, the indices of an array or of a string,
  nothing for a number or a boolean.\<close>

fun Object_keys :: "json \<Rightarrow> string list" where
  "Object_keys (JObj kvs) = map fst kvs"
| "Object_keys (JArr xs) = map show_nat [0..<length xs]"
| "Object_keys (JStr s) = map show_nat [0..<length s]"
| "Object_keys v = []"

declare show_nat.simps [simp del]

subsection \<open>The project report\<close>

text \<open>What \<open>getPackageInfo\<close> returns, as far as \<open>getProjectStats\<close> reads it.\<close>

record package_info =
  info_name :: string
  info_version :: string
  info_dependencies :: "string list"
  info_devDependencies :: "string list"
  info_scripts :: "string list"
  info_engines :: json

text \<open>What \<open>checkUnused\<close> returns (\<open>dependencies\<close>, \<open>devDependencies\<close>,
  \<open>missing\<close>, \<open>using\<close>); \<open>report_protected_dependencies\<close> and
  \<open>report_protected_devDependencies\<close> are the two lists of its \<open>protected\<close> object.\<close>

record unused_report =
  report_dependencies :: "string list"
  report_devDependencies :: "string list"
  report_missing :: "(string \<times> string list) list"
  report_using :: "(string \<times> string list) list"
  report_protected_dependencies :: "string list"
  report_protected_devDependencies :: "string list"

text \<open>What \<open>checkVulnerabilities\<close> returns (\<open>vulnerabilities\<close>, \<open>metadata\<close>).\<close>

record audit_report =
  audit_vulnerabilities :: json
  audit_metadata :: json

text \<open>One reported duplicate (\<open>name\<close>, \<open>versions\<close>, \<open>count\<close>), and what
  \<open>findDuplicates\<close> returns (\<open>duplicates\<close>, \<open>totalPackages\<close>, \<open>lockFileExists\<close>).
  The early return for a missing lock file has no \<open>totalPackages\<close> property: the field
  is optional.\<close>

record duplicate_entry =
  entry_name :: string
  entry_versions :: "string list"
  entry_count :: nat

record duplicates_info =
  found_duplicates :: "duplicate_entry list"
  found_totalPackages :: "nat option"
  found_lockFileExists :: bool

text \<open>The object \<open>getProjectStats\<close> builds; field \<open>unused_total\<close> is
  \<open>stats.unused.total\<close>, and so on.\<close>

record stats =
  project_name :: string
  project_version :: string
  project_totalDeps :: nat
  project_totalDevDeps :: nat
  project_totalScripts :: nat
  project_hasEngines :: bool
  unused_dependencies :: "string list"
  unused_devDependencies :: "string list"
  unused_total :: nat
  missing_packages :: "string list"
  missing_total :: nat
  outdated_packages :: "string list"
  outdated_total :: nat
  outdated_details :: json
  vulnerabilities_total :: nat
  vulnerabilities_metadata :: json
  vulnerabilities_details :: json
  duplicates_packages :: "duplicate_entry list"
  duplicates_total :: nat
  duplicates_totalPackages :: "nat option"
  duplicates_lockFileExists :: bool

text \<open>The assembly step of \<open>getProjectStats\<close>, from the results of the five calls it
  awaits.\<close>

definition getProjectStats ::
  "package_info \<Rightarrow> unused_report \<Rightarrow> json \<Rightarrow> audit_report \<Rightarrow> duplicates_info \<Rightarrow> stats" where
  "getProjectStats packageInfo unused outdated vulns duplicatesInfo =
     \<lparr>project_name = info_name packageInfo,
      project_version = info_version packageInfo,
      project_totalDeps = length (info_dependencies packageInfo),
      project_totalDevDeps = length (info_devDependencies packageInfo),
      project_totalScripts = length (info_scripts packageInfo),
      project_hasEngines = (length (Object_keys (info_engines packageInfo)) > 0),
      unused_dependencies = report_dependencies unused,
      unused_devDependencies = report_devDependencies unused,
      unused_total = length (report_dependencies unused) + length (report_devDependencies unused),
      missing_packages = map fst (report_missing unused),
      missing_total = length (map fst (report_missing unused)),
      outdated_packages = Object_keys outdated,
      outdated_total = length (Object_keys outdated),
      outdated_details = outdated,
      vulnerabilities_total = length (Object_keys (audit_vulnerabilities vulns)),
      vulnerabilities_metadata = audit_metadata vulns,
      vulnerabilities_details = audit_vulnerabilities vulns,
      duplicates_packages = found_duplicates duplicatesInfo,
      duplicates_total = length (found_duplicates duplicatesInfo),
      duplicates_totalPackages = found_totalPackages duplicatesInfo,
      duplicates_lockFileExists = found_lockFileExists duplicatesInfo\<rparr>"

subsection \<open>The health score\<close>

record health =
  score :: int
  issues :: "string list"
  suggestions :: "string list"
  health_stats :: stats

text \<open>
  \<open>calculateHealthScore\<close> after its call of \<open>getProjectStats\<close>. The three variables
  \<open>score\<close>, \<open>issues\<close> and \<open>suggestions\<close> are threaded through the five blocks in
  the order of the source; \<open>round\<close> is \<open>Math.round\<close> (half up).
\<close>

definition calculateHealthScore :: "stats \<Rightarrow> health" where
  \<open>calculateHealthScore st =
     (let score = (100::real); issues = []; suggestions = [];
          (score, issues, suggestions) =
            (if unused_total st > 0 then
               (let penalty = min 30 (real (unused_total st) * 3)
                in (score - penalty,
                    issues @ [show_nat (unused_total st) @ '' unused dependencies''],
                    suggestions @ [''Run "dependency-cli fix --unused" to remove unused packages'']))
             else (score, issues, suggestions));
          (score, issues, suggestions) =
            (if outdated_total st > 0 then
               (let penalty = min 25 (real (outdated_total st) * 2)
                in (score - penalty,
                    issues @ [show_nat (outdated_total st) @ '' outdated dependencies''],
                    suggestions @ [''Run "dependency-cli fix --outdated" to update packages'']))
             else (score, issues, suggestions));
          (score, issues, suggestions) =
            (if vulnerabilities_total st > 0 then
               (let penalty = min 35 (real (vulnerabilities_total st) * 5)
                in (score - penalty,
                    issues @ [show_nat (vulnerabilities_total st) @ '' security vulnerabilities''],
                    suggestions @ [''Run "dependency-cli fix --vulnerabilities" to fix security issues'']))
             else (score, issues, suggestions));
          (score, issues, suggestions) =
            (if duplicates_total st > 0 then
               (let penalty = min 15 (real (duplicates_total st) * 2)
                in (score - penalty,
                    issues @ [show_nat (duplicates_total st) @ '' duplicate packages''],
                    suggestions @ [''Run "dependency-cli fix --duplicates" to dedupe packages'']))
             else (score, issues, suggestions));
          (score, issues, suggestions) =
            (if missing_total st > 0 then
               (let penalty = min 20 (real (missing_total st) * 4)
                in (score - penalty,
                    issues @ [show_nat (missing_total st) @ '' missing dependencies''],
                    suggestions @ [''Install missing dependencies manually'']))
             else (score, issues, suggestions))
      in \<lparr>score = max 0 (round score), issues = issues, suggestions = suggestions, health_stats = st\<rparr>)\<close>

subsection \<open>The outside world\<close>

text \<open>
  The calls that leave the process are recorded as events. What such a call answers may
  depend on everything done before it, so the environment is a function of the events so
  far: \<open>execSync\<close> returns the standard output of a command or throws,
  \<open>depcheck\<close> resolves to a result or rejects with a message, \<open>JSON_parse\<close>
  returns a value or throws a syntax error with a message.
\<close>

datatype event = Exec string | Depcheck

record depcheck_result =
  result_dependencies :: "string list option"
  result_devDependencies :: "string list option"
  result_missing :: "(string \<times> string list) list option"
  result_using :: "(string \<times> string list) list option"

record env =
  execSync :: "event list \<Rightarrow> string \<Rightarrow> js_error + string"
  depcheck :: "event list \<Rightarrow> string + depcheck_result"
  JSON_parse :: "string \<Rightarrow> string + json"

definition Error :: "string \<Rightarrow> js_error" where
  "Error m = \<lparr>message = m, stdout = None\<rparr>"

subsection \<open>Unused dependencies\<close>

text \<open>The set the constructor builds. \<open>getPackageInfo\<close>, which only
  \<open>getProjectStats\<close> calls, adds to it the packages the manifest declares, so the
  methods below take the current set as a parameter.\<close>

definition builtin_protectedPackages :: "string set" where
  "builtin_protectedPackages = set
     [''commander'', ''chalk'', ''depcheck'', ''lodash'',
      ''react'', ''react-dom'', ''next'', ''vue'', ''nuxt'',
      ''express'', ''fastify'', ''koa'',
      ''typescript'', ''node'', ''@types/node'',
      ''webpack'', ''vite'', ''rollup'', ''parcel'',
      ''jest'', ''mocha'', ''vitest'', ''cypress'',
      ''eslint'', ''prettier'', ''husky'', ''lint-staged'',
      ''@vitejs/plugin-react'', ''@vitejs/plugin-react-refresh'',
      ''gsap'', ''@gsap/react'']"

definition startsWith :: "string \<Rightarrow> string \<Rightarrow> bool" where
  "startsWith s p = prefix p s"

definition includesSub :: "string \<Rightarrow> string \<Rightarrow> bool" where
  "includesSub s p = sublist p s"

text \<open>The callback both \<open>filter\<close> calls of \<open>checkUnused\<close> pass.\<close>

definition safe_to_remove :: "string set \<Rightarrow> string \<Rightarrow> bool" where
  "safe_to_remove protectedPackages dep =
     (if dep \<in> protectedPackages then False
      else if startsWith dep ''@types/'' \<or> includesSub dep ''eslint'' \<or> includesSub dep ''babel'' then False
      else True)"

definition checkUnused ::
  "env \<Rightarrow> string set \<Rightarrow> event list \<Rightarrow> (js_error + unused_report) \<times> event list" where
  "checkUnused e protectedPackages h =
     (case depcheck e h of
        Inl msg \<Rightarrow> (Inl (Error (''Error checking unused dependencies: '' @ msg)), h @ [Depcheck])
      | Inr result \<Rightarrow>
          (let result_deps = (case result_dependencies result of None \<Rightarrow> [] | Some ds \<Rightarrow> ds);
               result_devDeps = (case result_devDependencies result of None \<Rightarrow> [] | Some ds \<Rightarrow> ds);
               safeDependencies = filter (safe_to_remove protectedPackages) result_deps;
               safeDevDependencies = filter (safe_to_remove protectedPackages) result_devDeps
           in (Inr \<lparr>report_dependencies = safeDependencies,
                    report_devDependencies = safeDevDependencies,
                    report_missing = (case result_missing result of None \<Rightarrow> [] | Some m \<Rightarrow> m),
                    report_using = (case result_using result of None \<Rightarrow> [] | Some u \<Rightarrow> u),
                    report_protected_dependencies = filter (\<lambda>dep. dep \<in> protectedPackages) result_deps,
                    report_protected_devDependencies = filter (\<lambda>dep. dep \<in> protectedPackages) result_devDeps\<rparr>,
               h @ [Depcheck])))"

subsection \<open>Outdated packages and advisories\<close>

text \<open>\<open>delete v.k\<close> followed by a use of \<open>v\<close>: it throws on \<open>null\<close>, removes the
  entry of an object, and leaves any other value as it is.\<close>

fun delete_prop :: "json \<Rightarrow> string \<Rightarrow> js_error + json" where
  "delete_prop JNull k = Inl (TypeError ''Cannot convert undefined or null to object'')"
| "delete_prop (JObj kvs) k = Inr (JObj (filter (\<lambda>(k', v). k' \<noteq> k) kvs))"
| "delete_prop v k = Inr v"

text \<open>\<open>x || d\<close> for a property that may be undefined.\<close>

fun or_else :: "json option \<Rightarrow> json \<Rightarrow> json" where
  "or_else None d = d"
| "or_else (Some v) d = (if truthy v then v else d)"

text \<open>The statements both \<open>try\<close> blocks of \<open>checkOutdated\<close> run on a text.\<close>

definition parse_outdated :: "env \<Rightarrow> string \<Rightarrow> js_error + json" where
  "parse_outdated e output =
     (case JSON_parse e output of
        Inl msg \<Rightarrow> Inl (SyntaxError msg)
      | Inr outdated \<Rightarrow> delete_prop outdated ''chalk'')"

definition checkOutdated :: "env \<Rightarrow> event list \<Rightarrow> (js_error + json) \<times> event list" where
  "checkOutdated e h =
     (let cmd = ''npm outdated --json'';
          attempt = (case execSync e h cmd of
                       Inl error \<Rightarrow> Inl error
                     | Inr output \<Rightarrow> parse_outdated e output)
      in (case attempt of
            Inr outdated \<Rightarrow> Inr outdated
          | Inl error \<Rightarrow>
              (case stdout error of
                 None \<Rightarrow> Inr (JObj [])
               | Some out \<Rightarrow>
                   if out \<noteq> [] then
                     (case parse_outdated e out of
                        Inr outdated \<Rightarrow> Inr outdated
                      | Inl _ \<Rightarrow> Inr (JObj []))
                   else Inr (JObj [])),
          h @ [Exec cmd]))"

text \<open>The statements both \<open>try\<close> blocks of \<open>checkVulnerabilities\<close> run on a text.\<close>

definition parse_audit :: "env \<Rightarrow> string \<Rightarrow> js_error + audit_report" where
  "parse_audit e output =
     (case JSON_parse e output of
        Inl msg \<Rightarrow> Inl (SyntaxError msg)
      | Inr audit \<Rightarrow>
          (case get_prop audit ''vulnerabilities'' of
             Inl err \<Rightarrow> Inl err
           | Inr v \<Rightarrow>
               (case get_prop audit ''metadata'' of
                  Inl err \<Rightarrow> Inl err
                | Inr m \<Rightarrow> Inr \<lparr>audit_vulnerabilities = or_else v (JObj []), audit_metadata = or_else m (JObj [])\<rparr>)))"

definition empty_audit :: audit_report where
  "empty_audit = \<lparr>audit_vulnerabilities = JObj [], audit_metadata = JObj []\<rparr>"

definition checkVulnerabilities :: "env \<Rightarrow> event list \<Rightarrow> (js_error + audit_report) \<times> event list" where
  "checkVulnerabilities e h =
     (let cmd = ''npm audit --json'';
          attempt = (case execSync e h cmd of
                       Inl error \<Rightarrow> Inl error
                     | Inr output \<Rightarrow> parse_audit e output)
      in (case attempt of
            Inr audit \<Rightarrow> Inr audit
          | Inl error \<Rightarrow>
              (case stdout error of
                 None \<Rightarrow> Inr empty_audit
               | Some out \<Rightarrow>
                   if out \<noteq> [] then
                     (case parse_audit e out of
                        Inr audit \<Rightarrow> Inr audit
                      | Inl _ \<Rightarrow> Inr empty_audit)
                   else Inr empty_audit),
          h @ [Exec cmd]))"

subsection \<open>The manifest\<close>

text \<open>
  The parsed \<open>package.json\<close>, as \<open>getPackageInfo\<close> reads it: every property may be
  missing; \<open>data_protectedPackages\<close> is \<open>dependencyChecker?.protectedPackages\<close>.
  The file itself is either this content or the message of the error that reading or
  parsing it throws.
\<close>

record package_data =
  data_name :: "string option"
  data_version :: "string option"
  data_dependencies :: "(string \<times> string) list option"
  data_devDependencies :: "(string \<times> string) list option"
  data_scripts :: "(string \<times> string) list option"
  data_engines :: "json option"
  data_protectedPackages :: "string list option"

text \<open>\<open>getPackageInfo\<close> adds the packages the manifest declares to the protected set
  of the checker, so it returns the set as well. The property \<open>dependencyChecker\<close> of
  its result, which nothing reads, is left out.\<close>

definition getPackageInfo ::
  "string set \<Rightarrow> string + package_data \<Rightarrow> (js_error + package_info) \<times> string set" where
  "getPackageInfo protectedPackages file =
     (case file of
        Inl msg \<Rightarrow> (Inl (Error (''Failed to read package.json: '' @ msg)), protectedPackages)
      | Inr packageData \<Rightarrow>
          (let userProtected = (case data_protectedPackages packageData of None \<Rightarrow> [] | Some ps \<Rightarrow> ps);
               protectedPackages = protectedPackages \<union> set userProtected
           in (Inr \<lparr>info_name = (case data_name packageData of
                                     None \<Rightarrow> ''unknown''
                                   | Some n \<Rightarrow> if n \<noteq> [] then n else ''unknown''),
                    info_version = (case data_version packageData of
                                      None \<Rightarrow> ''0.0.0''
                                    | Some v \<Rightarrow> if v \<noteq> [] then v else ''0.0.0''),
                    info_dependencies = map fst (case data_dependencies packageData of
                                                   None \<Rightarrow> [] | Some ds \<Rightarrow> ds),
                    info_devDependencies = map fst (case data_devDependencies packageData of
                                                      None \<Rightarrow> [] | Some ds \<Rightarrow> ds),
                    info_scripts = map fst (case data_scripts packageData of
                                              None \<Rightarrow> [] | Some ss \<Rightarrow> ss),
                    info_engines = or_else (data_engines packageData) (JObj [])\<rparr>,
               protectedPackages)))"

subsection \<open>Duplicate versions in the lock file\<close>

text \<open>
  An entry of the lock file's tree, as \<open>scanDeps\<close> reads it: its \<open>version\<close> and its
  nested \<open>dependencies\<close>, each of which may be missing. An entry that is not an object
  (the version ranges under \<open>dependencies\<close> of a \<open>packages\<close> entry) has neither.
  The name of an entry is its key in the object that holds it: the name of a package in
  the nested \<open>dependencies\<close> shape, a path (\<open>node_modules/a/node_modules/b\<close>) in the
  flat \<open>packages\<close> shape.
\<close>

datatype lock_info = Info "string option" "(string \<times> lock_info) list option"

type_synonym lock_deps = "(string \<times> lock_info) list"

record lock_data =
  lock_packages :: "lock_deps option"
  lock_dependencies :: "lock_deps option"

text \<open>What the two reads of the lock file give: \<open>fs.access\<close> fails, or reading and
  parsing throws with a message, or the parsed content.\<close>

datatype lock_file = Absent | Unreadable string | Parsed lock_data

text \<open>The \<open>Map\<close> from a name to the \<open>Set\<close> of its versions; both keep insertion
  order.\<close>

type_synonym versions_map = "(string \<times> string list) list"

definition Map_has :: "versions_map \<Rightarrow> string \<Rightarrow> bool" where
  "Map_has m k = (k \<in> set (map fst m))"

definition Map_set :: "versions_map \<Rightarrow> string \<Rightarrow> string list \<Rightarrow> versions_map" where
  "Map_set m k v =
     (if Map_has m k then map (\<lambda>(k', v'). if k' = k then (k', v) else (k', v')) m
      else m @ [(k, v)])"

definition Set_add :: "string list \<Rightarrow> string \<Rightarrow> string list" where
  "Set_add s v = (if v \<in> set s then s else s @ [v])"

text \<open>\<open>versions.get(name).add(version)\<close>: the set stored under the name is updated in
  place.\<close>

definition Map_get_add :: "versions_map \<Rightarrow> string \<Rightarrow> string \<Rightarrow> versions_map" where
  "Map_get_add m k v = map (\<lambda>(k', s). if k' = k then (k', Set_add s v) else (k', s)) m"

text \<open>\<open>scanEntries\<close> is the \<open>forEach\<close> over \<open>Object.entries(deps)\<close>, \<open>scanEntry\<close>
  its callback; the pair is the closure's \<open>versions\<close> and \<open>totalPackages\<close>. A version
  is recorded when it is truthy: present and not the empty string.\<close>

fun scanEntries :: "lock_deps \<Rightarrow> versions_map \<times> nat \<Rightarrow> versions_map \<times> nat"
  and scanEntry :: "string \<Rightarrow> lock_info \<Rightarrow> versions_map \<times> nat \<Rightarrow> versions_map \<times> nat" where
  "scanEntries [] acc = acc"
| "scanEntries ((name, info) # rest) acc = scanEntries rest (scanEntry name info acc)"
| "scanEntry name (Info version dependencies) (versions, totalPackages) =
     (let (versions, totalPackages) =
            (case version of
               None \<Rightarrow> (versions, totalPackages)
             | Some v \<Rightarrow>
                 if v \<noteq> [] then
                   (let versions = (if \<not> Map_has versions name then Map_set versions name [] else versions)
                    in (Map_get_add versions name v, totalPackages + 1))
                 else (versions, totalPackages))
      in (case dependencies of
            None \<Rightarrow> (versions, totalPackages)
          | Some deps \<Rightarrow> scanEntries deps (versions, totalPackages)))"

definition scanDeps :: "lock_deps option \<Rightarrow> versions_map \<times> nat \<Rightarrow> versions_map \<times> nat" where
  "scanDeps deps acc = (case deps of None \<Rightarrow> acc | Some entries \<Rightarrow> scanEntries entries acc)"

definition findDuplicates :: "lock_file \<Rightarrow> js_error + duplicates_info" where
  "findDuplicates f =
     (case f of
        Absent \<Rightarrow> Inr \<lparr>found_duplicates = [], found_totalPackages = None, found_lockFileExists = False\<rparr>
      | Unreadable msg \<Rightarrow> Inl (Error (''Failed to parse package-lock.json: '' @ msg))
      | Parsed lockData \<Rightarrow>
          (let (versions, totalPackages) =
                 scanDeps (case lock_packages lockData of
                             Some p \<Rightarrow> Some p
                           | None \<Rightarrow> lock_dependencies lockData) ([], 0);
               duplicates =
                 map (\<lambda>(name, versionSet).
                        \<lparr>entry_name = name, entry_versions = versionSet, entry_count = length versionSet\<rparr>)
                   (filter (\<lambda>(name, versionSet). length versionSet > 1) versions)
           in Inr \<lparr>found_duplicates = duplicates, found_totalPackages = Some totalPackages,
                   found_lockFileExists = True\<rparr>))"

subsection \<open>Fixes\<close>

text \<open>\<open>Array.prototype.join\<close> and \<open>Array.prototype.slice\<close> (for \<open>start \<le> end\<close>).\<close>

fun join :: "string list \<Rightarrow> string \<Rightarrow> string" where
  "join [] sep = []"
| "join [x] sep = x"
| "join (x # y # ys) sep = x @ sep @ join (y # ys) sep"

definition slice :: "'a list \<Rightarrow> nat \<Rightarrow> nat \<Rightarrow> 'a list" where
  "slice xs start end = take (end - start) (drop start xs)"

definition batchSize :: nat where
  "batchSize = 10"

text \<open>The \<open>for\<close> loop of \<open>removeUnused\<close>, from index \<open>i\<close> on.\<close>

function uninstall_from ::
  "env \<Rightarrow> string list \<Rightarrow> nat \<Rightarrow> event list \<Rightarrow> (js_error + unit) \<times> event list" where
  "uninstall_from e allUnused i h =
     (if i < length allUnused then
        (let batch = slice allUnused i (i + batchSize);
             cmd = ''npm uninstall '' @ join batch '' ''
         in (case execSync e h cmd of
               Inl error \<Rightarrow> (Inl error, h @ [Exec cmd])
             | Inr out \<Rightarrow> uninstall_from e allUnused (i + batchSize) (h @ [Exec cmd])))
      else (Inr (), h))"
  by pat_completeness auto
termination
  by (relation "measure (\<lambda>(e, allUnused, i, h). length allUnused - i)") (auto simp: batchSize_def)

declare uninstall_from.simps [simp del]

text \<open>The flag \<open>force\<close> only decides whether a note is printed.\<close>

definition removeUnused ::
  "env \<Rightarrow> string set \<Rightarrow> bool \<Rightarrow> event list \<Rightarrow> (js_error + unit) \<times> event list" where
  "removeUnused e protectedPackages force h =
     (case checkUnused e protectedPackages h of
        (Inl error, h') \<Rightarrow> (Inl error, h')
      | (Inr unused, h') \<Rightarrow>
          (let allUnused = report_dependencies unused @ report_devDependencies unused
           in if length allUnused = 0 then (Inr (), h')
              else uninstall_from e allUnused 0 h'))"

definition updateOutdated :: "env \<Rightarrow> event list \<Rightarrow> (js_error + unit) \<times> event list" where
  "updateOutdated e h =
     (case execSync e h ''npm update'' of
        Inl error \<Rightarrow> (Inl error, h @ [Exec ''npm update''])
      | Inr out \<Rightarrow> (Inr (), h @ [Exec ''npm update'']))"

definition fixVulnerabilities :: "env \<Rightarrow> event list \<Rightarrow> (js_error + unit) \<times> event list" where
  "fixVulnerabilities e h =
     (case execSync e h ''npm audit fix'' of
        Inl error \<Rightarrow> (Inl error, h @ [Exec ''npm audit fix''])
      | Inr out \<Rightarrow> (Inr (), h @ [Exec ''npm audit fix'']))"

definition deduplicate :: "env \<Rightarrow> event list \<Rightarrow> (js_error + unit) \<times> event list" where
  "deduplicate e h =
     (case execSync e h ''npm dedupe'' of
        Inl error \<Rightarrow> (Inl error, h @ [Exec ''npm dedupe''])
      | Inr out \<Rightarrow> (Inr (), h @ [Exec ''npm dedupe'']))"

text \<open>The options of \<open>fix\<close> (\<open>unused\<close>, \<open>outdated\<close>, \<open>vulnerabilities\<close>,
  \<open>duplicates\<close>, \<open>all\<close>, \<open>force\<close>) and an entry of its results (\<open>type\<close>,
  \<open>success\<close>, \<open>error\<close>).\<close>

record fix_options =
  opt_unused :: bool
  opt_outdated :: bool
  opt_vulnerabilities :: bool
  opt_duplicates :: bool
  opt_all :: bool
  opt_force :: bool

record fix_result =
  fix_type :: string
  fix_success :: bool
  fix_error :: "string option"

text \<open>One \<open>try\<close>/\<open>catch\<close> of \<open>fixIssues\<close>: the entry pushed for a category after
  its action returned or threw.\<close>

definition push_result ::
  "fix_result list \<Rightarrow> string \<Rightarrow> (js_error + unit) \<Rightarrow> fix_result list" where
  "push_result results t r =
     (case r of
        Inr u \<Rightarrow> results @ [\<lparr>fix_type = t, fix_success = True, fix_error = None\<rparr>]
      | Inl error \<Rightarrow> results @ [\<lparr>fix_type = t, fix_success = False, fix_error = Some (message error)\<rparr>])"

definition fixIssues ::
  "env \<Rightarrow> string set \<Rightarrow> fix_options \<Rightarrow> event list \<Rightarrow> fix_result list \<times> event list" where
  "fixIssues e protectedPackages options h =
     (let results = [];
          (results, h) =
            (if opt_all options \<or> opt_unused options then
               (case removeUnused e protectedPackages (opt_force options) h of
                  (r, h') \<Rightarrow> (push_result results ''unused'' r, h'))
             else (results, h));
          (results, h) =
            (if opt_all options \<or> opt_outdated options then
               (case updateOutdated e h of
                  (r, h') \<Rightarrow> (push_result results ''outdated'' r, h'))
             else (results, h));
          (results, h) =
            (if opt_all options \<or> opt_vulnerabilities options then
               (case fixVulnerabilities e h of
                  (r, h') \<Rightarrow> (push_result results ''vulnerabilities'' r, h'))
             else (results, h));
          (results, h) =
            (if opt_all options \<or> opt_duplicates options then
               (case deduplicate e h of
                  (r, h') \<Rightarrow> (push_result results ''duplicates'' r, h'))
             else (results, h))
      in (results, h))"

text \<open>
  The action of the command \<open>fix\<close>, with its flag \<open>yes\<close>: without a category, or
  without \<open>yes\<close>, it prints and returns; otherwise it calls \<open>fixIssues\<close> on the
  checker the script has constructed. Nothing on this path calls \<open>getPackageInfo\<close>,
  so the protected set is still the one of the constructor.
\<close>

definition fix_command ::
  "env \<Rightarrow> fix_options \<Rightarrow> bool \<Rightarrow> event list \<Rightarrow> fix_result list option \<times> event list" where
  "fix_command e options yes h =
     (if \<not> opt_unused options \<and> \<not> opt_outdated options \<and> \<not> opt_vulnerabilities options
         \<and> \<not> opt_duplicates options \<and> \<not> opt_all options then (None, h)
      else if \<not> yes then (None, h)
      else (case fixIssues e builtin_protectedPackages options h of
              (results, h') \<Rightarrow> (Some results, h')))"

section \<open>Notions of the specification\<close>

text \<open>
  The definitions of this section translate no function of the code: they write down
  the notions of the specification, for the theorems to compare the code with, and a few
  auxiliary notions that the statements and the proofs use.
\<close>

subsection \<open>The table of weights and caps\<close>

datatype category = Unused | Outdated | Vulnerabilities | Duplicates | Missing

fun spec_weight :: "category \<Rightarrow> int" where
  "spec_weight Unused = 3"
| "spec_weight Outdated = 2"
| "spec_weight Vulnerabilities = 5"
| "spec_weight Duplicates = 2"
| "spec_weight Missing = 4"

fun spec_cap :: "category \<Rightarrow> int" where
  "spec_cap Unused = 30"
| "spec_cap Outdated = 25"
| "spec_cap Vulnerabilities = 35"
| "spec_cap Duplicates = 15"
| "spec_cap Missing = 20"

text \<open>The number of items a report has in a category, and the report with that number
  replaced.\<close>

fun item_count :: "category \<Rightarrow> stats \<Rightarrow> nat" where
  "item_count Unused st = unused_total st"
| "item_count Outdated st = outdated_total st"
| "item_count Vulnerabilities st = vulnerabilities_total st"
| "item_count Duplicates st = duplicates_total st"
| "item_count Missing st = missing_total st"

fun with_count :: "category \<Rightarrow> nat \<Rightarrow> stats \<Rightarrow> stats" where
  "with_count Unused n st = st\<lparr>unused_total := n\<rparr>"
| "with_count Outdated n st = st\<lparr>outdated_total := n\<rparr>"
| "with_count Vulnerabilities n st = st\<lparr>vulnerabilities_total := n\<rparr>"
| "with_count Duplicates n st = st\<lparr>duplicates_total := n\<rparr>"
| "with_count Missing n st = st\<lparr>missing_total := n\<rparr>"

definition spec_penalty :: "category \<Rightarrow> stats \<Rightarrow> int" where
  "spec_penalty c st = min (spec_cap c) (int (item_count c st) * spec_weight c)"

definition other_penalties :: "category \<Rightarrow> stats \<Rightarrow> int" where
  "other_penalties c st =
     (\<Sum>k\<leftarrow>filter (\<lambda>k. k \<noteq> c) [Unused, Outdated, Vulnerabilities, Duplicates, Missing]. spec_penalty k st)"

subsection \<open>Duplicates\<close>

text \<open>The distinct elements of a list, each at the place of its first occurrence.\<close>

fun distinct_in_order :: "'a list \<Rightarrow> 'a list" where
  "distinct_in_order [] = []"
| "distinct_in_order (x # xs) = x # distinct_in_order (removeAll x xs)"

text \<open>The occurrences \<open>(name, version)\<close> of a tree in the order of the walk: a node
  before its nested dependencies, the entries of an object in their order. A version
  counts when the code takes it for one (present, not the empty string).\<close>

fun visited_entries :: "lock_deps \<Rightarrow> (string \<times> string) list"
  and visited_entry :: "string \<Rightarrow> lock_info \<Rightarrow> (string \<times> string) list" where
  "visited_entries [] = []"
| "visited_entries ((name, info) # rest) = visited_entry name info @ visited_entries rest"
| "visited_entry name (Info version dependencies) =
     (case version of None \<Rightarrow> [] | Some v \<Rightarrow> if v \<noteq> [] then [(name, v)] else [])
     @ (case dependencies of None \<Rightarrow> [] | Some deps \<Rightarrow> visited_entries deps)"

definition visited :: "lock_data \<Rightarrow> (string \<times> string) list" where
  "visited lockData =
     (case lock_packages lockData of
        Some p \<Rightarrow> visited_entries p
      | None \<Rightarrow> (case lock_dependencies lockData of Some d \<Rightarrow> visited_entries d | None \<Rightarrow> []))"

text \<open>The distinct versions of a name in insertion order, and the entries to report:
  one for each name with more than one distinct version.\<close>

definition versions_of :: "string \<Rightarrow> (string \<times> string) list \<Rightarrow> string list" where
  "versions_of n occ = distinct_in_order (map snd (filter (\<lambda>(m, v). m = n) occ))"

definition spec_duplicates :: "(string \<times> string) list \<Rightarrow> duplicate_entry list" where
  "spec_duplicates occ =
     map (\<lambda>n. \<lparr>entry_name = n, entry_versions = versions_of n occ,
               entry_count = card {v. (n, v) \<in> set occ}\<rparr>)
       (filter (\<lambda>n. card {v. (n, v) \<in> set occ} > 1) (distinct_in_order (map fst occ)))"

text \<open>The map from names to versions after a walk over the occurrences, and the step
  of the walk at one occurrence; both serve the proofs.\<close>

definition grouped :: "(string \<times> string) list \<Rightarrow> versions_map" where
  "grouped occ = map (\<lambda>n. (n, versions_of n occ)) (distinct_in_order (map fst occ))"

definition record_one :: "versions_map \<Rightarrow> string \<times> string \<Rightarrow> versions_map" where
  "record_one m p =
     (case p of (name, v) \<Rightarrow>
        Map_get_add (if \<not> Map_has m name then Map_set m name [] else m) name v)"

subsection \<open>Removal of unused packages\<close>

text \<open>A package the policy keeps from removal: it is in the protected set, or its name
  starts with \<open>@types/\<close>, or contains \<open>eslint\<close> or \<open>babel\<close>.\<close>

definition vetoed :: "string set \<Rightarrow> string \<Rightarrow> bool" where
  "vetoed protectedPackages dep =
     (dep \<in> protectedPackages \<or> startsWith dep ''@types/'' \<or> includesSub dep ''eslint''
      \<or> includesSub dep ''babel'')"

text \<open>A list cut into consecutive batches of \<open>n\<close> elements, the last one shorter when
  the length is not a multiple of \<open>n\<close>.\<close>

fun spec_batches :: "nat \<Rightarrow> 'a list \<Rightarrow> 'a list list" where
  "spec_batches n xs =
     (if n = 0 \<or> xs = [] then [] else take n xs # spec_batches n (drop n xs))"

declare spec_batches.simps [simp del]

text \<open>The command line of one uninstall invocation, and its event.\<close>

definition uninstall_command :: "string list \<Rightarrow> string" where
  "uninstall_command batch = ''npm uninstall '' @ join batch '' ''"

definition uninstall_event :: "string list \<Rightarrow> event" where
  "uninstall_event batch = Exec (uninstall_command batch)"

text \<open>The invocations for a list of batches, one after the other until one fails; it
  serves the proofs.\<close>

fun run_batches :: "env \<Rightarrow> string list list \<Rightarrow> event list \<Rightarrow> (js_error + unit) \<times> event list" where
  "run_batches e [] h = (Inr (), h)"
| "run_batches e (b # bs) h =
     (case execSync e h (uninstall_command b) of
        Inl error \<Rightarrow> (Inl error, h @ [uninstall_event b])
      | Inr out \<Rightarrow> run_batches e bs (h @ [uninstall_event b]))"

text \<open>Every batch of a list succeeds when the batches are issued in order, starting
  after the events \<open>h\<close>.\<close>

fun all_succeed :: "env \<Rightarrow> event list \<Rightarrow> string list list \<Rightarrow> bool" where
  "all_succeed e h [] = True"
| "all_succeed e h (b # bs) =
     ((case execSync e h (uninstall_command b) of Inl err \<Rightarrow> False | Inr out \<Rightarrow> True)
      \<and> all_succeed e (h @ [uninstall_event b]) bs)"

text \<open>The combined list \<open>allUnused\<close> that \<open>removeUnused\<close> works on: the two removable
  lists of \<open>checkUnused\<close>, and nothing when the analyser fails.\<close>

definition all_unused :: "env \<Rightarrow> string set \<Rightarrow> event list \<Rightarrow> string list" where
  "all_unused e protectedPackages h =
     (case fst (checkUnused e protectedPackages h) of
        Inl err \<Rightarrow> []
      | Inr unused \<Rightarrow> report_dependencies unused @ report_devDependencies unused)"

text \<open>The entry \<open>fixIssues\<close> records for a category whose action ended with \<open>r\<close>.\<close>

definition entry_for :: "string \<Rightarrow> js_error + 'a \<Rightarrow> fix_result" where
  "entry_for t r =
     (case r of
        Inr u \<Rightarrow> \<lparr>fix_type = t, fix_success = True, fix_error = None\<rparr>
      | Inl error \<Rightarrow> \<lparr>fix_type = t, fix_success = False, fix_error = Some (message error)\<rparr>)"

subsection \<open>Queries of the package manager\<close>

text \<open>The text a query has to parse: the standard output of the command, also when the
  command failed, if there is any.\<close>

definition output_text :: "js_error + string \<Rightarrow> string option" where
  "output_text outcome =
     (case outcome of
        Inr output \<Rightarrow> Some output
      | Inl err \<Rightarrow> (case stdout err of None \<Rightarrow> None | Some out \<Rightarrow> if out \<noteq> [] then Some out else None))"

text \<open>The parsed report of outdated packages without the entry of \<open>chalk\<close>.\<close>

definition without_chalk :: "json \<Rightarrow> json" where
  "without_chalk v =
     (case v of JObj entries \<Rightarrow> JObj (filter (\<lambda>(k, x). k \<noteq> ''chalk'') entries) | _ \<Rightarrow> v)"

text \<open>The parsed audit: its \<open>vulnerabilities\<close> and \<open>metadata\<close>, an empty object
  standing for one that is missing or falsy.\<close>

definition field :: "json \<Rightarrow> string \<Rightarrow> json option" where
  "field v k = (case v of JObj entries \<Rightarrow> map_of entries k | _ \<Rightarrow> None)"

definition audit_of :: "json \<Rightarrow> audit_report" where
  "audit_of v =
     \<lparr>audit_vulnerabilities = or_else (field v ''vulnerabilities'') (JObj []),
      audit_metadata = or_else (field v ''metadata'') (JObj [])\<rparr>"

text \<open>The policy of a query, with the case the code adds to the specification's two
  (no output, output that does not parse): output that parses to \<open>null\<close> gives the
  empty result as well.\<close>

definition query_result :: "(json \<Rightarrow> 'a) \<Rightarrow> 'a \<Rightarrow> env \<Rightarrow> js_error + string \<Rightarrow> 'a" where
  "query_result process fallback e outcome =
     (case output_text outcome of
        None \<Rightarrow> fallback
      | Some text \<Rightarrow>
          (case JSON_parse e text of
             Inl msg \<Rightarrow> fallback
           | Inr v \<Rightarrow> if v = JNull then fallback else process v))"

section \<open>Example data\<close>

definition example_info :: package_info where
  "example_info =
     \<lparr>info_name = ''demo'', info_version = ''1.0.0'', info_dependencies = [''left-pad'', ''moment''],
      info_devDependencies = [''nodemon''], info_scripts = [''test''], info_engines = JObj []\<rparr>"

definition example_unused :: unused_report where
  "example_unused =
     \<lparr>report_dependencies = [''left-pad'', ''moment''], report_devDependencies = [''nodemon''],
      report_missing = [], report_using = [],
      report_protected_dependencies = [], report_protected_devDependencies = []\<rparr>"

definition example_stats :: stats where
  "example_stats =
     getProjectStats example_info example_unused (JObj []) empty_audit
       \<lparr>found_duplicates = [], found_totalPackages = None, found_lockFileExists = False\<rparr>"

text \<open>Lock files in the nested \<open>dependencies\<close> shape: \<open>lodash\<close> at two places with
  one version; at three places with two versions; and under a node without a version.\<close>

definition lodash_twice_lock :: lock_data where
  "lodash_twice_lock =
     \<lparr>lock_packages = None,
      lock_dependencies = Some
        [(''lodash'', Info (Some ''4.17.20'') None),
         (''a'', Info (Some ''1.0.0'') (Some [(''lodash'', Info (Some ''4.17.20'') None)]))]\<rparr>"

definition lodash_lock :: lock_data where
  "lodash_lock =
     \<lparr>lock_packages = None,
      lock_dependencies = Some
        [(''lodash'', Info (Some ''4.17.20'') None),
         (''a'', Info (Some ''1.0.0'') (Some [(''lodash'', Info (Some ''4.17.20'') None)])),
         (''b'', Info (Some ''2.0.0'') (Some [(''lodash'', Info (Some ''4.17.21'') None)]))]\<rparr>"

definition versionless_lock :: lock_data where
  "versionless_lock =
     \<lparr>lock_packages = None,
      lock_dependencies = Some
        [(''lodash'', Info (Some ''4.17.20'') None),
         (''workspace'', Info None (Some [(''lodash'', Info (Some ''4.17.21'') None)]))]\<rparr>"

text \<open>A run of the analyser that flags protected and unprotected packages, in an
  environment where every command succeeds.\<close>

definition flagged :: depcheck_result where
  "flagged =
     \<lparr>result_dependencies = Some [''react'', ''left-pad'', ''@types/lodash''],
      result_devDependencies = Some [''eslint-config-x'', ''nodemon'', ''babel-jest'', ''jest''],
      result_missing = None, result_using = None\<rparr>"

definition calm_env :: env where
  "calm_env =
     \<lparr>execSync = (\<lambda>h cmd. Inr []),
      depcheck = (\<lambda>h. Inr flagged),
      JSON_parse = (\<lambda>s. Inl ''Unexpected end of JSON input'')\<rparr>"

text \<open>Twenty-three unused packages, in an environment where the uninstall command of
  the second batch fails and every other command succeeds.\<close>

definition many_packages :: "string list" where
  "many_packages =
     [''p01'', ''p02'', ''p03'', ''p04'', ''p05'', ''p06'', ''p07'', ''p08'', ''p09'', ''p10'',
      ''p11'', ''p12'', ''p13'', ''p14'', ''p15'', ''p16'', ''p17'', ''p18'', ''p19'', ''p20'',
      ''p21'', ''p22'', ''p23'']"

definition second_batch_command :: string where
  "second_batch_command = ''npm uninstall p11 p12 p13 p14 p15 p16 p17 p18 p19 p20''"

definition failing_env :: env where
  "failing_env =
     \<lparr>execSync = (\<lambda>h cmd. if cmd = second_batch_command
                             then Inl \<lparr>message = ''Command failed: '' @ cmd, stdout = Some []\<rparr>
                             else Inr []),
      depcheck = (\<lambda>h. Inr \<lparr>result_dependencies = Some (take 12 many_packages),
                             result_devDependencies = Some (drop 12 many_packages),
                             result_missing = None, result_using = None\<rparr>),
      JSON_parse = (\<lambda>s. Inl ''Unexpected end of JSON input'')\<rparr>"

definition only_unused :: fix_options where
  "only_unused =
     \<lparr>opt_unused = True, opt_outdated = False, opt_vulnerabilities = False,
      opt_duplicates = False, opt_all = False, opt_force = False\<rparr>"

text \<open>An environment in which \<open>npm update\<close> fails and every other command succeeds,
  and the selection of all categories.\<close>

definition update_fails_env :: env where
  "update_fails_env =
     \<lparr>execSync = (\<lambda>h cmd. if cmd = ''npm update''
                             then Inl \<lparr>message = ''Command failed: npm update'', stdout = None\<rparr>
                             else Inr []),
      depcheck = (\<lambda>h. Inr flagged),
      JSON_parse = (\<lambda>s. Inl ''Unexpected end of JSON input'')\<rparr>"

definition all_options :: fix_options where
  "all_options =
     \<lparr>opt_unused = False, opt_outdated = False, opt_vulnerabilities = False,
      opt_duplicates = False, opt_all = True, opt_force = False\<rparr>"

text \<open>What \<open>checkUnused\<close> returns for the twenty-three packages.\<close>

definition many_report :: unused_report where
  "many_report =
     \<lparr>report_dependencies = take 12 many_packages, report_devDependencies = drop 12 many_packages,
      report_missing = [], report_using = [],
      report_protected_dependencies = [], report_protected_devDependencies = []\<rparr>"

text \<open>An environment in which the queries exit with a failure after printing
  \<open>null\<close>, and one in which \<open>npm outdated\<close> exits with a failure after reporting
  \<open>chalk\<close> alone. Their \<open>JSON_parse\<close> is right on the one text the commands print.\<close>

definition null_output_env :: env where
  "null_output_env =
     \<lparr>execSync = (\<lambda>h cmd. Inl \<lparr>message = ''Command failed: '' @ cmd, stdout = Some ''null''\<rparr>),
      depcheck = (\<lambda>h. Inr flagged),
      JSON_parse = (\<lambda>s. if s = ''null'' then Inr JNull else Inl ''Unexpected token'')\<rparr>"

definition chalk_text :: string where
  \<open>chalk_text = ''{"chalk":{"current":"4.1.2","wanted":"4.1.2","latest":"5.4.1"}}''\<close>

definition chalk_entry :: json where
  "chalk_entry =
     JObj [(''current'', JStr ''4.1.2''), (''wanted'', JStr ''4.1.2''), (''latest'', JStr ''5.4.1'')]"

definition chalk_only_env :: env where
  "chalk_only_env =
     \<lparr>execSync = (\<lambda>h cmd. Inl \<lparr>message = ''Command failed: '' @ cmd, stdout = Some chalk_text\<rparr>),
      depcheck = (\<lambda>h. Inr flagged),
      JSON_parse = (\<lambda>s. if s = chalk_text then Inr (JObj [(''chalk'', chalk_entry)])
                         else Inl ''Unexpected token'')\<rparr>"

text \<open>An environment in which \<open>npm audit\<close> exits with a failure after reporting an
  advisory.\<close>

definition audit_text :: string where
  \<open>audit_text = ''{"vulnerabilities":{"lodash":{"severity":"high"}},"metadata":{}}''\<close>

definition audit_env :: env where
  "audit_env =
     \<lparr>execSync = (\<lambda>h cmd. Inl \<lparr>message = ''Command failed: '' @ cmd, stdout = Some audit_text\<rparr>),
      depcheck = (\<lambda>h. Inr flagged),
      JSON_parse = (\<lambda>s. if s = audit_text
                         then Inr (JObj [(''vulnerabilities'',
                                          JObj [(''lodash'', JObj [(''severity'', JStr ''high'')])]),
                                         (''metadata'', JObj [])])
                         else Inl ''Unexpected token'')\<rparr>"

text \<open>A lock file in the flat \<open>packages\<close> shape of lock file versions 2 and 3, whose
  keys are paths: \<open>lodash\<close> is installed at three places, twice at 4.17.20 and once
  at 4.17.21.\<close>

definition flat_lock :: lock_data where
  "flat_lock =
     \<lparr>lock_packages = Some
        [([], Info (Some ''1.0.0'') None),
         (''node_modules/a'', Info (Some ''1.0.0'') (Some [(''lodash'', Info None None)])),
         (''node_modules/a/node_modules/lodash'', Info (Some ''4.17.20'') None),
         (''node_modules/b'', Info (Some ''2.0.0'') (Some [(''lodash'', Info None None)])),
         (''node_modules/b/node_modules/lodash'', Info (Some ''4.17.21'') None),
         (''node_modules/lodash'', Info (Some ''4.17.20'') None)],
      lock_dependencies = None\<rparr>"

text \<open>A manifest that declares \<open>moment\<close> protected, and an environment in which the
  analyser flags \<open>left-pad\<close> and \<open>moment\<close> and every command succeeds.\<close>

definition declared_manifest :: package_data where
  "declared_manifest =
     \<lparr>data_name = Some ''demo'', data_version = Some ''1.0.0'',
      data_dependencies = Some [(''left-pad'', ''^1.3.0''), (''moment'', ''^2.29.0'')],
      data_devDependencies = None, data_scripts = None, data_engines = None,
      data_protectedPackages = Some [''moment'']\<rparr>"

definition moment_env :: env where
  "moment_env =
     \<lparr>execSync = (\<lambda>h cmd. Inr []),
      depcheck = (\<lambda>h. Inr \<lparr>result_dependencies = Some [''left-pad'', ''moment''],
                             result_devDependencies = Some [],
                             result_missing = None, result_using = None\<rparr>),
      JSON_parse = (\<lambda>s. Inl ''Unexpected end of JSON input'')\<rparr>"

section \<open>Verified properties\<close>

subsection \<open>The health score\<close>

lemma score_real:
  "score (calculateHealthScore st) =
     max 0 (round (100 - (min 30 (real (unused_total st) * 3) + min 25 (real (outdated_total st) * 2)
       + min 35 (real (vulnerabilities_total st) * 5) + min 15 (real (duplicates_total st) * 2)
       + min 20 (real (missing_total st) * 4))))"
  unfolding calculateHealthScore_def Let_def
  by (simp add: algebra_simps)

lemma penalties_int:
  "100 - (min 30 (real a * 3) + min 25 (real b * 2) + min 35 (real c * 5) + min 15 (real d * 2)
      + min 20 (real e * 4))
   = real_of_int (100 - (min 30 (int a * 3) + min 25 (int b * 2) + min 35 (int c * 5)
      + min 15 (int d * 2) + min 20 (int e * 4)))"
  by (simp add: of_int_min)

lemma raw_score:
  "score (calculateHealthScore st) =
     max 0 (100 - (min 30 (int (unused_total st) * 3) + min 25 (int (outdated_total st) * 2)
       + min 35 (int (vulnerabilities_total st) * 5) + min 15 (int (duplicates_total st) * 2)
       + min 20 (int (missing_total st) * 4)))"
  by (simp only: score_real penalties_int round_of_int)

lemma clamp_bounds:
  "0 \<le> a \<Longrightarrow> 0 \<le> b \<Longrightarrow> 0 \<le> c \<Longrightarrow> 0 \<le> d \<Longrightarrow> 0 \<le> e \<Longrightarrow>
     0 \<le> max 0 (100 - (a + b + c + d + e)) \<and> max 0 (100 - (a + b + c + d + e)) \<le> 100"
  for a b c d e :: int
  by linarith

lemma score_bounds:
  "0 \<le> score (calculateHealthScore st) \<and> score (calculateHealthScore st) \<le> 100"
  unfolding raw_score by (rule clamp_bounds) simp_all

lemma example_stats_totals:
  "unused_total example_stats = 3" "outdated_total example_stats = 0"
  "vulnerabilities_total example_stats = 0" "duplicates_total example_stats = 0"
  "missing_total example_stats = 0"
  by (simp_all add: example_stats_def getProjectStats_def example_unused_def empty_audit_def)

text \<open>
  Claim C1. For every report, the score \<open>calculateHealthScore\<close> returns is
  \<open>max(0, round(100 - sum of the capped penalties))\<close>, each penalty being the count of
  its category times the weight, capped on its own: unused 3 and 30, outdated 2 and 25,
  vulnerabilities 5 and 35, duplicates 2 and 15, missing 4 and 20. The score is an
  integer between 0 and 100. The unused count of a report built by \<open>getProjectStats\<close>
  is the number of unused production and development dependencies together.
\<close>

theorem calculateHealthScore_formula:
  "score (calculateHealthScore st) =
     max 0 (round (100 - (min 30 (real (unused_total st) * 3) + min 25 (real (outdated_total st) * 2)
       + min 35 (real (vulnerabilities_total st) * 5) + min 15 (real (duplicates_total st) * 2)
       + min 20 (real (missing_total st) * 4))))
   \<and> 0 \<le> score (calculateHealthScore st) \<and> score (calculateHealthScore st) \<le> 100
   \<and> unused_total (getProjectStats p u od v d)
       = length (report_dependencies u) + length (report_devDependencies u)"
  using score_real [of st] score_bounds [of st] by (simp add: getProjectStats_def)

theorem calculateHealthScore_formula_witness:
  "score (calculateHealthScore example_stats) = 91
   \<and> unused_total example_stats = length [''left-pad'', ''moment''] + length [''nodemon'']"
  using calculateHealthScore_formula [of example_stats example_info example_unused "JObj []" empty_audit
      "\<lparr>found_duplicates = [], found_totalPackages = None, found_lockFileExists = False\<rparr>"]
  by (simp add: example_stats_totals)

lemma other_penalties_nonneg: "0 \<le> other_penalties c st"
  by (cases c) (simp_all add: other_penalties_def spec_penalty_def)

lemma with_count_score:
  "score (calculateHealthScore (with_count c n st)) =
     max 0 (100 - (min (spec_cap c) (int n * spec_weight c) + other_penalties c st))"
  by (cases c) (simp_all add: raw_score spec_penalty_def other_penalties_def ac_simps)

lemma deduction_le:
  "0 \<le> cap \<Longrightarrow> 0 \<le> x \<Longrightarrow> max 0 (100 - r) - max 0 (100 - (min cap x + r)) \<le> cap"
  for cap x r :: int
  by linarith

lemma deduction_eq:
  "0 \<le> cap \<Longrightarrow> 0 \<le> x \<Longrightarrow> 0 < max 0 (100 - (min cap x + r)) \<Longrightarrow>
     max 0 (100 - r) - max 0 (100 - (min cap x + r)) = min cap x"
  for cap x r :: int
  by linarith

lemma spec_cap_nonneg: "0 \<le> spec_cap c"
  by (cases c) simp_all

lemma spec_weight_nonneg: "0 \<le> spec_weight c"
  by (cases c) simp_all

text \<open>
  Claim C9. The score is 100 less the sum over the five categories of
  \<open>min(cap, n * weight)\<close>, stopped at 0, so no category takes more than its cap: going
  from no item to \<open>n\<close> items in one category, the rest of the report unchanged, lowers
  the score by at most the cap, and by exactly \<open>min(cap, n * weight)\<close> unless the score
  has reached 0. With 100 unused items and nothing else the score is 70: 30 is deducted,
  not 300.
\<close>

theorem category_penalty_capped:
  "spec_penalty c st = min (spec_cap c) (int (item_count c st) * spec_weight c)
   \<and> spec_penalty c st \<le> spec_cap c
   \<and> score (calculateHealthScore st) =
       max 0 (100 - (\<Sum>k\<leftarrow>[Unused, Outdated, Vulnerabilities, Duplicates, Missing]. spec_penalty k st))
   \<and> score (calculateHealthScore (with_count c 0 st)) - score (calculateHealthScore (with_count c n st))
       \<le> spec_cap c
   \<and> (0 < score (calculateHealthScore (with_count c n st)) \<longrightarrow>
        score (calculateHealthScore (with_count c 0 st)) - score (calculateHealthScore (with_count c n st))
          = min (spec_cap c) (int n * spec_weight c))"
proof (intro conjI impI)
  have x: "0 \<le> int n * spec_weight c"
    by (simp add: spec_weight_nonneg)
  have z: "score (calculateHealthScore (with_count c 0 st)) = max 0 (100 - other_penalties c st)"
    by (simp add: with_count_score spec_cap_nonneg)
  show "spec_penalty c st = min (spec_cap c) (int (item_count c st) * spec_weight c)"
    by (simp add: spec_penalty_def)
  show "spec_penalty c st \<le> spec_cap c"
    by (simp add: spec_penalty_def)
  show "score (calculateHealthScore st) =
      max 0 (100 - (\<Sum>k\<leftarrow>[Unused, Outdated, Vulnerabilities, Duplicates, Missing]. spec_penalty k st))"
    by (simp add: raw_score spec_penalty_def ac_simps)
  show "score (calculateHealthScore (with_count c 0 st))
      - score (calculateHealthScore (with_count c n st)) \<le> spec_cap c"
    unfolding z with_count_score [of c n st] by (rule deduction_le [OF spec_cap_nonneg x])
  assume pos: "0 < score (calculateHealthScore (with_count c n st))"
  show "score (calculateHealthScore (with_count c 0 st))
      - score (calculateHealthScore (with_count c n st)) = min (spec_cap c) (int n * spec_weight c)"
    using pos unfolding z with_count_score [of c n st]
    by (rule deduction_eq [OF spec_cap_nonneg x])
qed

theorem category_penalty_capped_witness:
  "score (calculateHealthScore (with_count Unused 100 example_stats)) = 70
   \<and> score (calculateHealthScore (with_count Unused 0 example_stats))
       - score (calculateHealthScore (with_count Unused 100 example_stats)) = 30"
proof -
  have s: "score (calculateHealthScore (with_count Unused 100 example_stats)) = 70"
    by (simp add: raw_score example_stats_totals)
  have "0 < score (calculateHealthScore (with_count Unused 100 example_stats)) \<longrightarrow>
      score (calculateHealthScore (with_count Unused 0 example_stats))
        - score (calculateHealthScore (with_count Unused 100 example_stats))
      = min (spec_cap Unused) (int 100 * spec_weight Unused)"
    using category_penalty_capped [of Unused example_stats 100] by blast
  with s show ?thesis
    by simp
qed

subsection \<open>The duplicate scan\<close>

lemma set_distinct_in_order [simp]: "set (distinct_in_order xs) = set xs"
  by (induction xs rule: distinct_in_order.induct) auto

lemma distinct_distinct_in_order [simp]: "distinct (distinct_in_order xs)"
  by (induction xs rule: distinct_in_order.induct) auto

lemma distinct_in_order_snoc:
  "distinct_in_order (xs @ [y]) = (if y \<in> set xs then distinct_in_order xs else distinct_in_order xs @ [y])"
  by (induction xs rule: distinct_in_order.induct) auto

lemma scan_as_fold:
  "scanEntries es (vm, n) = (foldl record_one vm (visited_entries es), n + length (visited_entries es))"
  "scanEntry name info (vm, n) = (foldl record_one vm (visited_entry name info), n + length (visited_entry name info))"
  by (induction es "(vm, n)" and name info "(vm, n)" arbitrary: vm n and vm n rule: scanEntries_scanEntry.induct)
    (auto simp: record_one_def split: option.splits)


lemma versions_of_snoc_other: "n \<noteq> a \<Longrightarrow> versions_of n (occ @ [(a, v)]) = versions_of n occ"
  by (simp add: versions_of_def)

lemma versions_of_snoc_same: "versions_of a (occ @ [(a, v)]) = Set_add (versions_of a occ) v"
  by (simp add: versions_of_def distinct_in_order_snoc Set_add_def)

lemma versions_of_absent: "a \<notin> fst ` set occ \<Longrightarrow> versions_of a occ = []"
proof -
  assume "a \<notin> fst ` set occ"
  then have "filter (\<lambda>(m, v). m = a) occ = []"
    by (force simp: filter_empty_conv)
  then show ?thesis by (simp add: versions_of_def)
qed

lemma Map_has_grouped: "Map_has (grouped occ) a \<longleftrightarrow> a \<in> fst ` set occ"
  by (simp add: Map_has_def grouped_def comp_def)

lemma grouped_snoc: "record_one (grouped occ) (a, v) = grouped (occ @ [(a, v)])"
proof (cases "a \<in> fst ` set occ")
  case True
  then have "record_one (grouped occ) (a, v) = Map_get_add (grouped occ) a v"
    by (simp add: record_one_def Map_has_grouped)
  also have "\<dots> = map (\<lambda>n. (n, versions_of n (occ @ [(a, v)]))) (distinct_in_order (map fst occ))"
    by (simp add: Map_get_add_def grouped_def versions_of_snoc_same versions_of_snoc_other)
  also have "\<dots> = grouped (occ @ [(a, v)])"
    using True by (simp add: grouped_def distinct_in_order_snoc)
  finally show ?thesis .
next
  case False
  then have "record_one (grouped occ) (a, v) = Map_get_add (grouped occ @ [(a, [])]) a v"
    by (simp add: record_one_def Map_has_grouped Map_set_def)
  also have "\<dots> = map (\<lambda>n. (n, versions_of n (occ @ [(a, v)]))) (distinct_in_order (map fst occ)) @ [(a, [v])]"
    using False by (auto simp: Map_get_add_def grouped_def Set_add_def versions_of_snoc_other)
  also have "\<dots> = grouped (occ @ [(a, v)])"
    using False by (simp add: grouped_def distinct_in_order_snoc versions_of_snoc_same versions_of_absent Set_add_def)
  finally show ?thesis .
qed

lemma foldl_record_one: "foldl record_one [] occ = grouped occ"
proof (induction occ rule: rev_induct)
  case Nil
  show ?case by (simp add: grouped_def)
next
  case (snoc p occ)
  then show ?case by (cases p) (simp add: grouped_snoc)
qed

lemma length_versions_of: "length (versions_of n occ) = card {v. (n, v) \<in> set occ}"
proof -
  have "set (map snd (filter (\<lambda>(m, v). m = n) occ)) = {v. (n, v) \<in> set occ}"
    by force
  then show ?thesis
    by (metis versions_of_def distinct_card distinct_distinct_in_order set_distinct_in_order)
qed

lemma duplicates_of_grouped:
  "map (\<lambda>(name, versionSet). \<lparr>entry_name = name, entry_versions = versionSet, entry_count = length versionSet\<rparr>)
     (filter (\<lambda>(name, versionSet). length versionSet > 1) (grouped occ)) = spec_duplicates occ"
  by (simp add: grouped_def spec_duplicates_def filter_map comp_def length_versions_of)

lemma scanDeps_visited:
  "scanDeps (case lock_packages lockData of Some p \<Rightarrow> Some p | None \<Rightarrow> lock_dependencies lockData) ([], 0)
     = (grouped (visited lockData), length (visited lockData))"
  by (simp add: scanDeps_def visited_def scan_as_fold foldl_record_one grouped_def split: option.splits)

lemma findDuplicates_Parsed:
  "findDuplicates (Parsed lockData) =
     Inr \<lparr>found_duplicates = spec_duplicates (visited lockData),
          found_totalPackages = Some (length (visited lockData)),
          found_lockFileExists = True\<rparr>"
  using duplicates_of_grouped [of "visited lockData"]
  by (simp add: findDuplicates_def scanDeps_visited)


lemma names_of_spec_duplicates:
  "set (map entry_name (spec_duplicates occ)) = {n. card {v. (n, v) \<in> set occ} > 1}"
proof -
  have "card {v. (n, v) \<in> set occ} > 1 \<Longrightarrow> n \<in> fst ` set occ" for n
  proof (rule ccontr)
    assume c: "card {v. (n, v) \<in> set occ} > 1" and n: "n \<notin> fst ` set occ"
    from n have "{v. (n, v) \<in> set occ} = {}" by force
    with c show False by simp
  qed
  then show ?thesis
    by (auto simp: spec_duplicates_def comp_def)
qed

lemma distinct_names_of_spec_duplicates: "distinct (map entry_name (spec_duplicates occ))"
proof -
  have "map entry_name (spec_duplicates occ)
      = filter (\<lambda>n. card {v. (n, v) \<in> set occ} > 1) (distinct_in_order (map fst occ))"
    by (simp add: spec_duplicates_def comp_def)
  then show ?thesis by simp
qed

lemma set_versions_of: "set (versions_of n occ) = {v. (n, v) \<in> set occ}"
  by (force simp: versions_of_def)

lemma entries_of_spec_duplicates:
  "\<forall>d \<in> set (spec_duplicates occ).
     entry_versions d = versions_of (entry_name d) occ
     \<and> distinct (entry_versions d)
     \<and> set (entry_versions d) = {v. (entry_name d, v) \<in> set occ}
     \<and> entry_count d = length (entry_versions d)
     \<and> entry_count d > 1"
proof
  fix d
  assume "d \<in> set (spec_duplicates occ)"
  then obtain n where d: "d = \<lparr>entry_name = n, entry_versions = versions_of n occ,
      entry_count = card {v. (n, v) \<in> set occ}\<rparr>" and n: "card {v. (n, v) \<in> set occ} > 1"
    by (auto simp: spec_duplicates_def)
  have "distinct (versions_of n occ)"
    by (simp add: versions_of_def)
  with d n show "entry_versions d = versions_of (entry_name d) occ
     \<and> distinct (entry_versions d)
     \<and> set (entry_versions d) = {v. (entry_name d, v) \<in> set occ}
     \<and> entry_count d = length (entry_versions d)
     \<and> entry_count d > 1"
    by (simp add: set_versions_of length_versions_of)
qed

text \<open>
  What \<open>findDuplicates\<close> computes for every parsed lock file: it groups the occurrences
  \<open>(key, version)\<close> of the whole tree by the key of the entry and reports an entry
  exactly for the keys with more than one distinct version, with the distinct versions
  in insertion order and their number as count; \<open>totalPackages\<close> is the number of
  occurrences. In the nested \<open>dependencies\<close> shape the keys are the names of the
  packages: with \<open>lodash\<close> at two places, both 4.17.20, nothing is reported; with a
  third place at 4.17.21 the result is the one entry for \<open>lodash\<close>.
\<close>

theorem findDuplicates_groups_by_key:
  "findDuplicates (Parsed lockData) =
     Inr \<lparr>found_duplicates = spec_duplicates (visited lockData),
          found_totalPackages = Some (length (visited lockData)),
          found_lockFileExists = True\<rparr>
   \<and> set (map entry_name (spec_duplicates occ)) = {n. card {v. (n, v) \<in> set occ} > 1}
   \<and> distinct (map entry_name (spec_duplicates occ))
   \<and> (\<forall>d \<in> set (spec_duplicates occ).
         entry_versions d = versions_of (entry_name d) occ
         \<and> distinct (entry_versions d)
         \<and> set (entry_versions d) = {v. (entry_name d, v) \<in> set occ}
         \<and> entry_count d = length (entry_versions d)
         \<and> entry_count d > 1)
   \<and> findDuplicates (Parsed lodash_twice_lock) =
       Inr \<lparr>found_duplicates = [], found_totalPackages = Some 3, found_lockFileExists = True\<rparr>
   \<and> findDuplicates (Parsed lodash_lock) =
       Inr \<lparr>found_duplicates =
              [\<lparr>entry_name = ''lodash'', entry_versions = [''4.17.20'', ''4.17.21''], entry_count = 2\<rparr>],
            found_totalPackages = Some 5, found_lockFileExists = True\<rparr>"
proof (intro conjI)
  show "findDuplicates (Parsed lockData) =
     Inr \<lparr>found_duplicates = spec_duplicates (visited lockData),
          found_totalPackages = Some (length (visited lockData)),
          found_lockFileExists = True\<rparr>"
    by (rule findDuplicates_Parsed)
  show "set (map entry_name (spec_duplicates occ)) = {n. card {v. (n, v) \<in> set occ} > 1}"
    by (rule names_of_spec_duplicates)
  show "distinct (map entry_name (spec_duplicates occ))"
    by (rule distinct_names_of_spec_duplicates)
  show "findDuplicates (Parsed lodash_twice_lock) =
       Inr \<lparr>found_duplicates = [], found_totalPackages = Some 3, found_lockFileExists = True\<rparr>"
    by (simp add: findDuplicates_def lodash_twice_lock_def scanDeps_def Map_has_def Map_set_def
        Map_get_add_def Set_add_def)
  show "findDuplicates (Parsed lodash_lock) =
       Inr \<lparr>found_duplicates =
              [\<lparr>entry_name = ''lodash'', entry_versions = [''4.17.20'', ''4.17.21''], entry_count = 2\<rparr>],
            found_totalPackages = Some 5, found_lockFileExists = True\<rparr>"
    by (simp add: findDuplicates_def lodash_lock_def scanDeps_def Map_has_def Map_set_def
        Map_get_add_def Set_add_def)
  show "\<forall>d \<in> set (spec_duplicates occ).
         entry_versions d = versions_of (entry_name d) occ
         \<and> distinct (entry_versions d)
         \<and> set (entry_versions d) = {v. (entry_name d, v) \<in> set occ}
         \<and> entry_count d = length (entry_versions d)
         \<and> entry_count d > 1"
    by (rule entries_of_spec_duplicates)
qed

theorem findDuplicates_groups_by_key_example:
  "spec_duplicates (visited lodash_lock) =
     [\<lparr>entry_name = ''lodash'', entry_versions = [''4.17.20'', ''4.17.21''], entry_count = 2\<rparr>]
   \<and> length (visited lodash_lock) = 5
   \<and> versions_of ''lodash'' (visited lodash_lock) = [''4.17.20'', ''4.17.21'']"
proof -
  note t = findDuplicates_groups_by_key [of lodash_lock "visited lodash_lock"]
  have "Inr \<lparr>found_duplicates = spec_duplicates (visited lodash_lock),
          found_totalPackages = Some (length (visited lodash_lock)),
          found_lockFileExists = True\<rparr> =
      (Inr \<lparr>found_duplicates =
              [\<lparr>entry_name = ''lodash'', entry_versions = [''4.17.20'', ''4.17.21''], entry_count = 2\<rparr>],
            found_totalPackages = Some 5, found_lockFileExists = True\<rparr> :: js_error + duplicates_info)"
    using t by metis
  then have d: "spec_duplicates (visited lodash_lock) =
     [\<lparr>entry_name = ''lodash'', entry_versions = [''4.17.20'', ''4.17.21''], entry_count = 2\<rparr>]"
    and l: "length (visited lodash_lock) = 5"
    by simp_all
  have "\<forall>d \<in> set (spec_duplicates (visited lodash_lock)).
      entry_versions d = versions_of (entry_name d) (visited lodash_lock)"
    using t by blast
  with d l show ?thesis by simp
qed

text \<open>
  Claim C2. The claim has \<open>findDuplicates\<close> group by package name for every parsed
  lock file. The code groups by the key of the entry, and it reads \<open>packages\<close> before
  \<open>dependencies\<close>: in the flat \<open>packages\<close> shape the keys are paths, no two of them
  equal, so nothing is ever reported. In the lock file below \<open>lodash\<close> is installed
  at three places, at 4.17.20, 4.17.21 and 4.17.20; the result has no duplicates, where
  the claim has one entry for \<open>lodash\<close> with versions 4.17.20, 4.17.21 and count 2,
  as the code gives for the same packages in the nested shape.
\<close>

theorem findDuplicates_flat_packages_reports_nothing:
  "findDuplicates (Parsed flat_lock) =
     Inr \<lparr>found_duplicates = [], found_totalPackages = Some 6, found_lockFileExists = True\<rparr>
   \<and> map snd (filter (\<lambda>(k, v). suffix ''node_modules/lodash'' k) (visited flat_lock))
       = [''4.17.20'', ''4.17.21'', ''4.17.20'']
   \<and> findDuplicates (Parsed lodash_lock) =
       Inr \<lparr>found_duplicates =
              [\<lparr>entry_name = ''lodash'', entry_versions = [''4.17.20'', ''4.17.21''], entry_count = 2\<rparr>],
            found_totalPackages = Some 5, found_lockFileExists = True\<rparr>"
  by (simp add: findDuplicates_def flat_lock_def lodash_lock_def scanDeps_def Map_has_def Map_set_def
      Map_get_add_def Set_add_def visited_def suffix_def)

lemma scanEntries_append: "scanEntries (xs @ ys) acc = scanEntries ys (scanEntries xs acc)"
proof (induction xs arbitrary: acc)
  case Nil
  show ?case by simp
next
  case (Cons a xs)
  then show ?case by (cases a) simp
qed

lemma scanEntry_versionless: "scanEntry name (Info None dependencies) acc = scanDeps dependencies acc"
  by (cases acc) (simp add: scanDeps_def)

text \<open>
  Claim C10. In the walk a node without a version adds nothing to \<open>totalPackages\<close> nor
  to the map of versions, and its nested dependencies are walked all the same: the walk
  goes on as if the node's dependencies stood in its place, so the descendants with a
  version are counted and take part in the detection of duplicates.
\<close>

theorem versionless_node_is_skipped_not_its_subtree:
  "scanEntry name (Info None dependencies) acc = scanDeps dependencies acc
   \<and> scanEntry name (Info None None) acc = acc
   \<and> scanEntries (front @ [(name, Info None (Some deps))] @ rest) acc
       = scanEntries (front @ deps @ rest) acc
   \<and> findDuplicates (Parsed versionless_lock) =
       Inr \<lparr>found_duplicates =
              [\<lparr>entry_name = ''lodash'', entry_versions = [''4.17.20'', ''4.17.21''], entry_count = 2\<rparr>],
            found_totalPackages = Some 2, found_lockFileExists = True\<rparr>"
proof (intro conjI)
  show "scanEntry name (Info None dependencies) acc = scanDeps dependencies acc"
    by (rule scanEntry_versionless)
  show "scanEntry name (Info None None) acc = acc"
    by (simp add: scanEntry_versionless scanDeps_def)
  show "scanEntries (front @ [(name, Info None (Some deps))] @ rest) acc
       = scanEntries (front @ deps @ rest) acc"
    by (simp add: scanEntries_append scanEntry_versionless scanDeps_def)
  show "findDuplicates (Parsed versionless_lock) =
       Inr \<lparr>found_duplicates =
              [\<lparr>entry_name = ''lodash'', entry_versions = [''4.17.20'', ''4.17.21''], entry_count = 2\<rparr>],
            found_totalPackages = Some 2, found_lockFileExists = True\<rparr>"
    by (simp add: findDuplicates_def versionless_lock_def scanDeps_def Map_has_def Map_set_def
        Map_get_add_def Set_add_def)
qed

theorem versionless_node_is_skipped_not_its_subtree_witness:
  "scanEntries [(''lodash'', Info (Some ''4.17.20'') None),
       (''workspace'', Info None (Some [(''lodash'', Info (Some ''4.17.21'') None)]))] ([], 0)
     = ([(''lodash'', [''4.17.20'', ''4.17.21''])], 2)"
  using versionless_node_is_skipped_not_its_subtree
    [of "''workspace''" "Some [(''lodash'', Info (Some ''4.17.21'') None)]" "([], 0)"
      "[(''lodash'', Info (Some ''4.17.20'') None)]" "[(''lodash'', Info (Some ''4.17.21'') None)]" "[]"]
  by (simp add: Map_has_def Map_set_def Map_get_add_def Set_add_def)

text \<open>
  Claim C7. Without a lock file \<open>findDuplicates\<close> returns, without an error, the object
  of its early return: no duplicates, \<open>lockFileExists\<close> false, and no
  \<open>totalPackages\<close> property at all, where the claim has the integer 0; the report of
  \<open>getProjectStats\<close> has none either.
\<close>

theorem findDuplicates_absent_lockfile:
  "findDuplicates Absent =
     Inr \<lparr>found_duplicates = [], found_totalPackages = None, found_lockFileExists = False\<rparr>
   \<and> (case findDuplicates Absent of Inl err \<Rightarrow> None | Inr r \<Rightarrow> found_totalPackages r) \<noteq> Some 0
   \<and> duplicates_totalPackages
       (getProjectStats p u od v
          \<lparr>found_duplicates = [], found_totalPackages = None, found_lockFileExists = False\<rparr>) = None"
  by (simp add: findDuplicates_def getProjectStats_def)

subsection \<open>Removal of unused packages\<close>

lemma spec_batches_Nil [simp]: "spec_batches n [] = []"
  by (simp add: spec_batches.simps)

lemma spec_batches_nonempty:
  "0 < n \<Longrightarrow> xs \<noteq> [] \<Longrightarrow> spec_batches n xs = take n xs # spec_batches n (drop n xs)"
  by (subst spec_batches.simps) simp

lemma uninstall_from_run_batches:
  "uninstall_from e allUnused i h = run_batches e (spec_batches batchSize (drop i allUnused)) h"
proof (induction e allUnused i h rule: uninstall_from.induct)
  case (1 e allUnused i h)
  show ?case
  proof (cases "i < length allUnused")
    case True
    then have ne: "drop i allUnused \<noteq> []" by simp
    have b: "spec_batches batchSize (drop i allUnused)
        = slice allUnused i (i + batchSize) # spec_batches batchSize (drop (i + batchSize) allUnused)"
      using spec_batches_nonempty [OF _ ne, of batchSize]
      by (simp add: batchSize_def slice_def add.commute)
    show ?thesis
    proof (cases "execSync e h (''npm uninstall '' @ join (slice allUnused i (i + batchSize)) '' '')")
      case (Inl err)
      with True show ?thesis
        by (subst uninstall_from.simps) (simp add: b uninstall_command_def uninstall_event_def)
    next
      case (Inr out)
      with True "1.IH" [OF True refl refl Inr] show ?thesis
        by (subst uninstall_from.simps) (simp add: b uninstall_command_def uninstall_event_def)
    qed
  next
    case False
    then show ?thesis
      by (subst uninstall_from.simps) simp
  qed
qed

lemma concat_spec_batches: "concat (spec_batches n xs) = (if n = 0 then [] else xs)"
proof (induction n xs rule: spec_batches.induct)
  case (1 n xs)
  show ?case
  proof (cases "n = 0 \<or> xs = []")
    case True
    then show ?thesis by (subst spec_batches.simps) auto
  next
    case False
    with "1.IH" show ?thesis by (subst spec_batches.simps) simp
  qed
qed

lemma spec_batches_sizes:
  "b \<in> set (spec_batches n xs) \<Longrightarrow> 0 < length b \<and> length b \<le> n \<and> set b \<subseteq> set xs"
proof (induction n xs rule: spec_batches.induct)
  case (1 n xs)
  show ?case
  proof (cases "n = 0 \<or> xs = []")
    case True
    with "1.prems" show ?thesis by (simp add: spec_batches.simps)
  next
    case False
    with "1.prems" have "b = take n xs \<or> b \<in> set (spec_batches n (drop n xs))"
      by (simp add: spec_batches_nonempty)
    then show ?thesis
    proof
      assume "b = take n xs"
      with False show ?thesis by (auto dest: in_set_takeD)
    next
      assume "b \<in> set (spec_batches n (drop n xs))"
      with "1.IH" False show ?thesis by (auto dest: in_set_dropD)
    qed
  qed
qed

lemma batches_of_23:
  assumes "length xs = 23"
  shows "spec_batches 10 xs = [take 10 xs, take 10 (drop 10 xs), drop 20 xs]"
proof -
  from assms have n: "xs \<noteq> []" "drop 10 xs \<noteq> []" "drop 20 xs \<noteq> []" "drop 30 xs = []"
    "take 10 (drop 20 xs) = drop 20 xs"
    by auto
  have "spec_batches 10 xs = take 10 xs # spec_batches 10 (drop 10 xs)"
    using n(1) by (simp add: spec_batches_nonempty)
  also have "spec_batches 10 (drop 10 xs) = take 10 (drop 10 xs) # spec_batches 10 (drop 20 xs)"
    using n(2) by (simp add: spec_batches_nonempty)
  also have "spec_batches 10 (drop 20 xs) = drop 20 xs # spec_batches 10 (drop 30 xs)"
    using n(3,5) by (simp add: spec_batches_nonempty)
  finally show ?thesis by (simp add: n(4))
qed

lemma run_batches_ok:
  "run_batches e bs h = (Inr u, h') \<Longrightarrow> h' = h @ map uninstall_event bs"
proof (induction bs arbitrary: h)
  case Nil
  then show ?case by simp
next
  case (Cons b bs)
  show ?case
  proof (cases "execSync e h (uninstall_command b)")
    case (Inl x)
    with Cons.prems show ?thesis by simp
  next
    case (Inr out)
    with Cons.prems have "run_batches e bs (h @ [uninstall_event b]) = (Inr u, h')" by simp
    from Cons.IH [OF this] show ?thesis by simp
  qed
qed

lemma run_batches_fail:
  "run_batches e bs h = (Inl err, h') \<Longrightarrow>
     \<exists>done failed rest. bs = done @ failed # rest
       \<and> h' = h @ map uninstall_event done @ [uninstall_event failed]
       \<and> execSync e (h @ map uninstall_event done) (uninstall_command failed) = Inl err"
proof (induction bs arbitrary: h)
  case Nil
  then show ?case by simp
next
  case (Cons b bs)
  show ?case
  proof (cases "execSync e h (uninstall_command b)")
    case (Inl x)
    with Cons.prems have "h' = h @ [uninstall_event b]" "x = err" by simp_all
    with Inl have "b # bs = [] @ b # bs \<and> h' = h @ map uninstall_event [] @ [uninstall_event b]
       \<and> execSync e (h @ map uninstall_event []) (uninstall_command b) = Inl err"
      by simp
    then show ?thesis by blast
  next
    case (Inr out)
    with Cons.prems have "run_batches e bs (h @ [uninstall_event b]) = (Inl err, h')" by simp
    from Cons.IH [OF this] obtain d f r where
      "bs = d @ f # r" "h' = (h @ [uninstall_event b]) @ map uninstall_event d @ [uninstall_event f]"
      "execSync e ((h @ [uninstall_event b]) @ map uninstall_event d) (uninstall_command f) = Inl err"
      by blast
    then have "b # bs = (b # d) @ f # r \<and> h' = h @ map uninstall_event (b # d) @ [uninstall_event f]
       \<and> execSync e (h @ map uninstall_event (b # d)) (uninstall_command f) = Inl err"
      by simp
    then show ?thesis by blast
  qed
qed


lemma removeUnused_run_batches:
  "removeUnused e protectedPackages force h =
     (case checkUnused e protectedPackages h of
        (Inl err, h') \<Rightarrow> (Inl err, h')
      | (Inr unused, h') \<Rightarrow>
          run_batches e (spec_batches 10 (report_dependencies unused @ report_devDependencies unused)) h')"
  by (simp add: removeUnused_def uninstall_from_run_batches batchSize_def Let_def
      split: prod.splits sum.splits)

lemma checkUnused_events: "snd (checkUnused e protectedPackages h) = h @ [Depcheck]"
  by (simp add: checkUnused_def Let_def split: sum.splits)

lemma run_batches_events:
  "\<exists>k. snd (run_batches e bs h) = h @ map uninstall_event (take k bs)"
proof (cases "run_batches e bs h")
  case (Pair r h')
  show ?thesis
  proof (cases r)
    case (Inr u)
    with Pair have "h' = h @ map uninstall_event (take (length bs) bs)"
      by (simp add: run_batches_ok)
    with Pair show ?thesis by (metis snd_conv)
  next
    case (Inl err)
    with Pair obtain finished failed rest where
      "bs = finished @ failed # rest" "h' = h @ map uninstall_event finished @ [uninstall_event failed]"
      using run_batches_fail by blast
    then have "h' = h @ map uninstall_event (take (Suc (length finished)) bs)"
      by simp
    with Pair show ?thesis by (metis snd_conv)
  qed
qed

lemma removeUnused_events:
  "\<exists>k. snd (removeUnused e protectedPackages force h)
     = h @ Depcheck # map uninstall_event (take k (spec_batches 10 (all_unused e protectedPackages h)))"
proof (cases "checkUnused e protectedPackages h")
  case (Pair r h')
  with checkUnused_events [of e protectedPackages h] have h': "h' = h @ [Depcheck]" by simp
  show ?thesis
  proof (cases r)
    case (Inl err)
    with Pair h' have "snd (removeUnused e protectedPackages force h)
        = h @ Depcheck # map uninstall_event (take 0 (spec_batches 10 (all_unused e protectedPackages h)))"
      by (simp add: removeUnused_run_batches)
    then show ?thesis by blast
  next
    case (Inr unused)
    let ?bs = "spec_batches 10 (report_dependencies unused @ report_devDependencies unused)"
    from Pair Inr have a: "all_unused e protectedPackages h
        = report_dependencies unused @ report_devDependencies unused"
      by (simp add: all_unused_def)
    obtain k where "snd (run_batches e ?bs h') = h' @ map uninstall_event (take k ?bs)"
      using run_batches_events by blast
    with Pair Inr h' a have "snd (removeUnused e protectedPackages force h)
        = h @ Depcheck # map uninstall_event (take k (spec_batches 10 (all_unused e protectedPackages h)))"
      by (simp add: removeUnused_run_batches)
    then show ?thesis by blast
  qed
qed

lemma safe_to_remove_vetoed: "safe_to_remove protectedPackages dep \<longleftrightarrow> \<not> vetoed protectedPackages dep"
  by (simp add: safe_to_remove_def vetoed_def)

lemma checkUnused_report:
  assumes "checkUnused e protectedPackages h = (Inr unused, h')"
  shows "\<exists>result. depcheck e h = Inr result
    \<and> report_dependencies unused = filter (safe_to_remove protectedPackages)
        (case result_dependencies result of None \<Rightarrow> [] | Some ds \<Rightarrow> ds)
    \<and> report_devDependencies unused = filter (safe_to_remove protectedPackages)
        (case result_devDependencies result of None \<Rightarrow> [] | Some ds \<Rightarrow> ds)
    \<and> report_protected_dependencies unused = filter (\<lambda>dep. dep \<in> protectedPackages)
        (case result_dependencies result of None \<Rightarrow> [] | Some ds \<Rightarrow> ds)
    \<and> report_protected_devDependencies unused = filter (\<lambda>dep. dep \<in> protectedPackages)
        (case result_devDependencies result of None \<Rightarrow> [] | Some ds \<Rightarrow> ds)"
  using assms by (auto simp: checkUnused_def Let_def split: sum.splits)

lemma vetoed_not_in_all_unused:
  "vetoed protectedPackages dep \<Longrightarrow> dep \<notin> set (all_unused e protectedPackages h)"
proof (cases "checkUnused e protectedPackages h")
  case (Pair r h')
  assume v: "vetoed protectedPackages dep"
  show ?thesis
  proof (cases r)
    case (Inl err)
    with Pair show ?thesis by (simp add: all_unused_def)
  next
    case (Inr unused)
    from checkUnused_report [OF Pair [unfolded Inr]] v
    have "dep \<notin> set (report_dependencies unused) \<union> set (report_devDependencies unused)"
      by (auto simp: safe_to_remove_vetoed)
    with Pair Inr show ?thesis by (simp add: all_unused_def)
  qed
qed

text \<open>
  What \<open>checkUnused\<close> and \<open>removeUnused\<close> do with the protected set they are called
  with: whatever the analyser returns and whatever the flag \<open>force\<close> is, a package
  that is in that set, or whose name starts with \<open>@types/\<close> or contains \<open>eslint\<close>
  or \<open>babel\<close>, is in neither of the removable lists \<open>checkUnused\<close> returns and in
  no batch \<open>removeUnused\<close> passes to an uninstall command: the commands it issues are
  those of the first batches of the combined removable list. A package of the set that
  the analyser flagged is in the protected list of the result.
\<close>

theorem vetoed_never_removable:
  assumes "vetoed protectedPackages dep"
  shows "(\<forall>unused h'. checkUnused e protectedPackages h = (Inr unused, h') \<longrightarrow>
            dep \<notin> set (report_dependencies unused) \<and> dep \<notin> set (report_devDependencies unused)
            \<and> (\<forall>result ds. depcheck e h = Inr result \<and> dep \<in> protectedPackages
                   \<and> result_dependencies result = Some ds \<and> dep \<in> set ds
                 \<longrightarrow> dep \<in> set (report_protected_dependencies unused))
            \<and> (\<forall>result ds. depcheck e h = Inr result \<and> dep \<in> protectedPackages
                   \<and> result_devDependencies result = Some ds \<and> dep \<in> set ds
                 \<longrightarrow> dep \<in> set (report_protected_devDependencies unused)))
       \<and> (\<exists>k. snd (removeUnused e protectedPackages force h)
              = h @ Depcheck
                  # map uninstall_event (take k (spec_batches 10 (all_unused e protectedPackages h))))
       \<and> dep \<notin> set (all_unused e protectedPackages h)
       \<and> (\<forall>b \<in> set (spec_batches 10 (all_unused e protectedPackages h)). dep \<notin> set b)
       \<and> removeUnused e protectedPackages True h = removeUnused e protectedPackages False h"
proof (intro conjI allI impI)
  fix unused h'
  assume c: "checkUnused e protectedPackages h = (Inr unused, h')"
  from checkUnused_report [OF c] obtain result where r: "depcheck e h = Inr result"
    "report_dependencies unused = filter (safe_to_remove protectedPackages)
        (case result_dependencies result of None \<Rightarrow> [] | Some ds \<Rightarrow> ds)"
    "report_devDependencies unused = filter (safe_to_remove protectedPackages)
        (case result_devDependencies result of None \<Rightarrow> [] | Some ds \<Rightarrow> ds)"
    "report_protected_dependencies unused = filter (\<lambda>dep. dep \<in> protectedPackages)
        (case result_dependencies result of None \<Rightarrow> [] | Some ds \<Rightarrow> ds)"
    "report_protected_devDependencies unused = filter (\<lambda>dep. dep \<in> protectedPackages)
        (case result_devDependencies result of None \<Rightarrow> [] | Some ds \<Rightarrow> ds)"
    by blast
  show "dep \<notin> set (report_dependencies unused)"
    using assms by (simp add: r safe_to_remove_vetoed)
  show "dep \<notin> set (report_devDependencies unused)"
    using assms by (simp add: r safe_to_remove_vetoed)
  {
    fix result' ds
    assume "depcheck e h = Inr result' \<and> dep \<in> protectedPackages
      \<and> result_dependencies result' = Some ds \<and> dep \<in> set ds"
    with r show "dep \<in> set (report_protected_dependencies unused)" by simp
  }
  {
    fix result' ds
    assume "depcheck e h = Inr result' \<and> dep \<in> protectedPackages
      \<and> result_devDependencies result' = Some ds \<and> dep \<in> set ds"
    with r show "dep \<in> set (report_protected_devDependencies unused)" by simp
  }
next
  show "\<exists>k. snd (removeUnused e protectedPackages force h)
      = h @ Depcheck # map uninstall_event (take k (spec_batches 10 (all_unused e protectedPackages h)))"
    by (rule removeUnused_events)
  show n: "dep \<notin> set (all_unused e protectedPackages h)"
    using assms by (rule vetoed_not_in_all_unused)
  show "\<forall>b \<in> set (spec_batches 10 (all_unused e protectedPackages h)). dep \<notin> set b"
    using n spec_batches_sizes by blast
  show "removeUnused e protectedPackages True h = removeUnused e protectedPackages False h"
    by (simp add: removeUnused_def)
qed

lemma calm_checkUnused:
  "checkUnused calm_env builtin_protectedPackages [] =
     (Inr \<lparr>report_dependencies = [''left-pad''], report_devDependencies = [''nodemon''],
           report_missing = [], report_using = [],
           report_protected_dependencies = [''react''], report_protected_devDependencies = [''jest'']\<rparr>,
      [Depcheck])"
  by (simp add: checkUnused_def calm_env_def flagged_def safe_to_remove_def startsWith_def
      includesSub_def builtin_protectedPackages_def sublist_code Let_def)

lemma calm_removeUnused:
  "removeUnused calm_env builtin_protectedPackages force [] =
     (Inr (), [Depcheck, Exec ''npm uninstall left-pad nodemon''])"
  unfolding removeUnused_run_batches calm_checkUnused
  by (simp add: spec_batches.simps uninstall_command_def uninstall_event_def calm_env_def)

theorem vetoed_never_removable_example:
  "vetoed builtin_protectedPackages ''react''
   \<and> ''react'' \<notin> set [''left-pad''] \<and> ''react'' \<in> set [''react'']
   \<and> snd (removeUnused calm_env builtin_protectedPackages True [])
       = [Depcheck, Exec ''npm uninstall left-pad nodemon'']
   \<and> fst (checkUnused calm_env builtin_protectedPackages []) =
     Inr \<lparr>report_dependencies = [''left-pad''], report_devDependencies = [''nodemon''],
           report_missing = [], report_using = [],
           report_protected_dependencies = [''react''], report_protected_devDependencies = [''jest'']\<rparr>"
proof -
  have v: "vetoed builtin_protectedPackages ''react''"
    by (simp add: vetoed_def builtin_protectedPackages_def)
  note t = vetoed_never_removable [OF v, of calm_env "[]" True]
  from t calm_checkUnused have "''react'' \<notin> set [''left-pad'']"
    by (metis unused_report.select_convs(1))
  with v calm_checkUnused calm_removeUnused show ?thesis by simp
qed

lemma moment_checkUnused:
  "checkUnused moment_env builtin_protectedPackages [] =
     (Inr \<lparr>report_dependencies = [''left-pad'', ''moment''], report_devDependencies = [],
           report_missing = [], report_using = [],
           report_protected_dependencies = [], report_protected_devDependencies = []\<rparr>,
      [Depcheck])"
  by (simp add: checkUnused_def moment_env_def safe_to_remove_def startsWith_def
      includesSub_def builtin_protectedPackages_def sublist_code Let_def)

lemma moment_removeUnused:
  "removeUnused moment_env builtin_protectedPackages force [] =
     (Inr (), [Depcheck, Exec ''npm uninstall left-pad moment''])"
  unfolding removeUnused_run_batches moment_checkUnused
  by (simp add: spec_batches.simps uninstall_command_def uninstall_event_def moment_env_def)

lemma declared_set:
  "snd (getPackageInfo builtin_protectedPackages (Inr declared_manifest))
     = insert ''moment'' builtin_protectedPackages"
  by (simp add: getPackageInfo_def declared_manifest_def Let_def)

lemma moment_checkUnused_declared:
  "checkUnused moment_env (insert ''moment'' builtin_protectedPackages) [] =
     (Inr \<lparr>report_dependencies = [''left-pad''], report_devDependencies = [],
           report_missing = [], report_using = [],
           report_protected_dependencies = [''moment''], report_protected_devDependencies = []\<rparr>,
      [Depcheck])"
  by (simp add: checkUnused_def moment_env_def safe_to_remove_def startsWith_def
      includesSub_def builtin_protectedPackages_def sublist_code Let_def)

lemma moment_removeUnused_declared:
  "removeUnused moment_env (insert ''moment'' builtin_protectedPackages) force [] =
     (Inr (), [Depcheck, Exec ''npm uninstall left-pad''])"
  unfolding removeUnused_run_batches moment_checkUnused_declared
  by (simp add: spec_batches.simps uninstall_command_def uninstall_event_def moment_env_def)

text \<open>
  Claim C3. The protected set of the claim holds the packages the manifest declares as
  well as the built-in ones, and \<open>getPackageInfo\<close> builds it so. The command \<open>fix\<close>
  never calls \<open>getPackageInfo\<close>: its \<open>removeUnused\<close> works with the built-in set
  alone. With a manifest that declares \<open>moment\<close> protected and an analyser that flags
  \<open>left-pad\<close> and \<open>moment\<close>, \<open>fix --unused --yes\<close> passes \<open>moment\<close> to
  \<open>npm uninstall\<close>, where the claim has it never passed; with the set
  \<open>getPackageInfo\<close> builds, \<open>removeUnused\<close> uninstalls \<open>left-pad\<close> alone.
\<close>

theorem fix_uninstalls_declared_protected_package:
  "''moment'' \<in> snd (getPackageInfo builtin_protectedPackages (Inr declared_manifest))
   \<and> vetoed (snd (getPackageInfo builtin_protectedPackages (Inr declared_manifest))) ''moment''
   \<and> depcheck moment_env [] =
       Inr \<lparr>result_dependencies = Some [''left-pad'', ''moment''], result_devDependencies = Some [],
            result_missing = None, result_using = None\<rparr>
   \<and> fix_command moment_env only_unused True [] =
       (Some [\<lparr>fix_type = ''unused'', fix_success = True, fix_error = None\<rparr>],
        [Depcheck, Exec ''npm uninstall left-pad moment''])
   \<and> removeUnused moment_env (snd (getPackageInfo builtin_protectedPackages (Inr declared_manifest)))
         False [] = (Inr (), [Depcheck, Exec ''npm uninstall left-pad''])"
  unfolding declared_set moment_removeUnused_declared fix_command_def fixIssues_def moment_removeUnused
  by (simp add: only_unused_def Let_def push_result_def vetoed_def moment_env_def)

subsection \<open>The fix orchestrator\<close>

lemma push_result_entry_for: "push_result results t r = results @ [entry_for t r]"
  by (simp add: push_result_def entry_for_def split: sum.splits)

lemma entry_for_action:
  "entry_for t (case x of Inl err \<Rightarrow> Inl err | Inr out \<Rightarrow> (Inr () :: js_error + unit)) = entry_for t x"
  by (simp add: entry_for_def split: sum.splits)

lemma updateOutdated_eq:
  "updateOutdated e h =
     (case execSync e h ''npm update'' of Inl err \<Rightarrow> Inl err | Inr out \<Rightarrow> Inr (), h @ [Exec ''npm update''])"
  by (simp add: updateOutdated_def split: sum.splits)

lemma fixVulnerabilities_eq:
  "fixVulnerabilities e h =
     (case execSync e h ''npm audit fix'' of Inl err \<Rightarrow> Inl err | Inr out \<Rightarrow> Inr (), h @ [Exec ''npm audit fix''])"
  by (simp add: fixVulnerabilities_def split: sum.splits)

lemma deduplicate_eq:
  "deduplicate e h =
     (case execSync e h ''npm dedupe'' of Inl err \<Rightarrow> Inl err | Inr out \<Rightarrow> Inr (), h @ [Exec ''npm dedupe''])"
  by (simp add: deduplicate_def split: sum.splits)

lemma fixIssues_closed_form:
  "fixIssues e protectedPackages options h =
     (let h1 = (if opt_all options \<or> opt_unused options
                then snd (removeUnused e protectedPackages (opt_force options) h) else h);
          h2 = h1 @ (if opt_all options \<or> opt_outdated options then [Exec ''npm update''] else []);
          h3 = h2 @ (if opt_all options \<or> opt_vulnerabilities options then [Exec ''npm audit fix''] else []);
          h4 = h3 @ (if opt_all options \<or> opt_duplicates options then [Exec ''npm dedupe''] else [])
      in ((if opt_all options \<or> opt_unused options
           then [entry_for ''unused'' (fst (removeUnused e protectedPackages (opt_force options) h))] else [])
          @ (if opt_all options \<or> opt_outdated options
             then [entry_for ''outdated'' (execSync e h1 ''npm update'')] else [])
          @ (if opt_all options \<or> opt_vulnerabilities options
             then [entry_for ''vulnerabilities'' (execSync e h2 ''npm audit fix'')] else [])
          @ (if opt_all options \<or> opt_duplicates options
             then [entry_for ''duplicates'' (execSync e h3 ''npm dedupe'')] else []),
          h4))"
proof -
  obtain r1 h1 where r: "removeUnused e protectedPackages (opt_force options) h = (r1, h1)"
    by (cases "removeUnused e protectedPackages (opt_force options) h")
  show ?thesis
    unfolding fixIssues_def Let_def push_result_entry_for updateOutdated_eq fixVulnerabilities_eq
      deduplicate_eq r
    by (simp add: entry_for_action)
qed

lemma fix_type_entry_for: "fix_type (entry_for t r) = t"
  by (simp add: entry_for_def split: sum.splits)

lemma fix_success_entry_for: "fix_success (entry_for t r) = (fix_error (entry_for t r) = None)"
  by (simp add: entry_for_def split: sum.splits)

text \<open>
  Claim C6. For every selection, \<open>fixIssues\<close> runs the action of each requested
  category (of all four with \<open>all\<close>) in the order unused, outdated, vulnerabilities,
  duplicates, and records one entry per requested category: success, or failure with
  the message of the error the action threw. What an action does, throws or returns
  changes neither which later actions run nor that \<open>fixIssues\<close> returns its results.
\<close>

theorem fixIssues_attempts_every_requested_category:
  "(let h1 = (if opt_all options \<or> opt_unused options
              then snd (removeUnused e protectedPackages (opt_force options) h) else h);
        h2 = h1 @ (if opt_all options \<or> opt_outdated options then [Exec ''npm update''] else []);
        h3 = h2 @ (if opt_all options \<or> opt_vulnerabilities options then [Exec ''npm audit fix''] else []);
        h4 = h3 @ (if opt_all options \<or> opt_duplicates options then [Exec ''npm dedupe''] else [])
    in fixIssues e protectedPackages options h =
        ((if opt_all options \<or> opt_unused options
          then [entry_for ''unused'' (fst (removeUnused e protectedPackages (opt_force options) h))] else [])
         @ (if opt_all options \<or> opt_outdated options
            then [entry_for ''outdated'' (execSync e h1 ''npm update'')] else [])
         @ (if opt_all options \<or> opt_vulnerabilities options
            then [entry_for ''vulnerabilities'' (execSync e h2 ''npm audit fix'')] else [])
         @ (if opt_all options \<or> opt_duplicates options
            then [entry_for ''duplicates'' (execSync e h3 ''npm dedupe'')] else []),
         h4))
   \<and> (\<exists>k. snd (removeUnused e protectedPackages (opt_force options) h)
          = h @ Depcheck
              # map uninstall_event (take k (spec_batches 10 (all_unused e protectedPackages h))))
   \<and> map fix_type (fst (fixIssues e protectedPackages options h)) =
       (if opt_all options \<or> opt_unused options then [''unused''] else [])
       @ (if opt_all options \<or> opt_outdated options then [''outdated''] else [])
       @ (if opt_all options \<or> opt_vulnerabilities options then [''vulnerabilities''] else [])
       @ (if opt_all options \<or> opt_duplicates options then [''duplicates''] else [])
   \<and> (\<forall>r \<in> set (fst (fixIssues e protectedPackages options h)). fix_success r = (fix_error r = None))
   \<and> (\<forall>t err. entry_for t (Inl err :: js_error + unit)
         = \<lparr>fix_type = t, fix_success = False, fix_error = Some (message err)\<rparr>)
   \<and> (\<forall>t u. entry_for t (Inr u :: js_error + unit)
         = \<lparr>fix_type = t, fix_success = True, fix_error = None\<rparr>)"
proof -
  note c = fixIssues_closed_form [of e protectedPackages options h]
  have 1: "map fix_type (fst (fixIssues e protectedPackages options h)) =
       (if opt_all options \<or> opt_unused options then [''unused''] else [])
       @ (if opt_all options \<or> opt_outdated options then [''outdated''] else [])
       @ (if opt_all options \<or> opt_vulnerabilities options then [''vulnerabilities''] else [])
       @ (if opt_all options \<or> opt_duplicates options then [''duplicates''] else [])"
    unfolding c Let_def by (simp add: fix_type_entry_for)
  have 2: "\<forall>r \<in> set (fst (fixIssues e protectedPackages options h)). fix_success r = (fix_error r = None)"
    unfolding c Let_def by (simp add: fix_success_entry_for)
  from c 1 2 removeUnused_events [of e protectedPackages "opt_force options" h] show ?thesis
    by (intro conjI) (simp_all add: entry_for_def)
qed

lemma update_fails_checkUnused:
  "checkUnused update_fails_env builtin_protectedPackages [] =
     (Inr \<lparr>report_dependencies = [''left-pad''], report_devDependencies = [''nodemon''],
           report_missing = [], report_using = [],
           report_protected_dependencies = [''react''], report_protected_devDependencies = [''jest'']\<rparr>,
      [Depcheck])"
  by (simp add: checkUnused_def update_fails_env_def flagged_def safe_to_remove_def startsWith_def
      includesSub_def builtin_protectedPackages_def sublist_code Let_def)

lemma update_fails_removeUnused:
  "removeUnused update_fails_env builtin_protectedPackages force [] =
     (Inr (), [Depcheck, Exec ''npm uninstall left-pad nodemon''])"
  unfolding removeUnused_run_batches update_fails_checkUnused
  by (simp add: spec_batches.simps uninstall_command_def uninstall_event_def update_fails_env_def)

theorem fixIssues_attempts_every_requested_category_witness:
  "fixIssues update_fails_env builtin_protectedPackages all_options [] =
     ([\<lparr>fix_type = ''unused'', fix_success = True, fix_error = None\<rparr>,
       \<lparr>fix_type = ''outdated'', fix_success = False, fix_error = Some ''Command failed: npm update''\<rparr>,
       \<lparr>fix_type = ''vulnerabilities'', fix_success = True, fix_error = None\<rparr>,
       \<lparr>fix_type = ''duplicates'', fix_success = True, fix_error = None\<rparr>],
      [Depcheck, Exec ''npm uninstall left-pad nodemon'', Exec ''npm update'', Exec ''npm audit fix'',
       Exec ''npm dedupe''])"
proof -
  note t = fixIssues_attempts_every_requested_category
    [of all_options update_fails_env builtin_protectedPackages "[]", THEN conjunct1]
  have o: "opt_all all_options" "opt_force all_options = False"
    by (simp_all add: all_options_def)
  from t have "fixIssues update_fails_env builtin_protectedPackages all_options [] =
      ([entry_for ''unused'' (Inr () :: js_error + unit),
        entry_for ''outdated'' (execSync update_fails_env
          [Depcheck, Exec ''npm uninstall left-pad nodemon''] ''npm update''),
        entry_for ''vulnerabilities'' (execSync update_fails_env
          [Depcheck, Exec ''npm uninstall left-pad nodemon'', Exec ''npm update''] ''npm audit fix''),
        entry_for ''duplicates'' (execSync update_fails_env
          [Depcheck, Exec ''npm uninstall left-pad nodemon'', Exec ''npm update'', Exec ''npm audit fix'']
          ''npm dedupe'')],
       [Depcheck, Exec ''npm uninstall left-pad nodemon'', Exec ''npm update'', Exec ''npm audit fix'',
        Exec ''npm dedupe''])"
    by (simp add: Let_def o update_fails_removeUnused)
  then show ?thesis
    by (simp add: entry_for_def update_fails_env_def)
qed

lemma unused_entry_first:
  "opt_all options \<or> opt_unused options \<Longrightarrow>
     \<exists>others. fst (fixIssues e protectedPackages options h)
       = entry_for ''unused'' (fst (removeUnused e protectedPackages (opt_force options) h)) # others"
  unfolding fixIssues_closed_form Let_def by simp

lemma run_batches_forward_ok:
  "all_succeed e h bs \<Longrightarrow> run_batches e bs h = (Inr (), h @ map uninstall_event bs)"
proof (induction bs arbitrary: h)
  case Nil
  show ?case by simp
next
  case (Cons b bs)
  from Cons.prems obtain out where o: "execSync e h (uninstall_command b) = Inr out"
    and s: "all_succeed e (h @ [uninstall_event b]) bs"
    by (auto split: sum.splits)
  from Cons.IH [OF s] o show ?case by simp
qed

lemma run_batches_forward_fail:
  "all_succeed e h finished \<Longrightarrow>
   execSync e (h @ map uninstall_event finished) (uninstall_command failed) = Inl err \<Longrightarrow>
   run_batches e (finished @ failed # rest) h
     = (Inl err, h @ map uninstall_event finished @ [uninstall_event failed])"
proof (induction finished arbitrary: h)
  case Nil
  then show ?case by simp
next
  case (Cons b bs)
  from Cons.prems(1) obtain out where o: "execSync e h (uninstall_command b) = Inr out"
    and s: "all_succeed e (h @ [uninstall_event b]) bs"
    by (auto split: sum.splits)
  from Cons.prems(2)
  have f: "execSync e ((h @ [uninstall_event b]) @ map uninstall_event bs) (uninstall_command failed) = Inl err"
    by simp
  from Cons.IH [OF s f] o show ?case by simp
qed

lemma run_batches_ok_all_succeed:
  "run_batches e bs h = (Inr u, h') \<Longrightarrow> all_succeed e h bs"
proof (induction bs arbitrary: h)
  case Nil
  show ?case by simp
next
  case (Cons b bs)
  show ?case
  proof (cases "execSync e h (uninstall_command b)")
    case (Inl x)
    with Cons.prems show ?thesis by simp
  next
    case (Inr out)
    with Cons.prems have "run_batches e bs (h @ [uninstall_event b]) = (Inr u, h')" by simp
    from Cons.IH [OF this] Inr show ?thesis by simp
  qed
qed

lemma run_batches_fail_first:
  "run_batches e bs h = (Inl err, h') \<Longrightarrow>
     \<exists>finished failed rest. bs = finished @ failed # rest
       \<and> h' = h @ map uninstall_event finished @ [uninstall_event failed]
       \<and> all_succeed e h finished
       \<and> execSync e (h @ map uninstall_event finished) (uninstall_command failed) = Inl err"
proof (induction bs arbitrary: h)
  case Nil
  then show ?case by simp
next
  case (Cons b bs)
  show ?case
  proof (cases "execSync e h (uninstall_command b)")
    case (Inl x)
    with Cons.prems have "h' = h @ [uninstall_event b]" "x = err" by simp_all
    with Inl have "b # bs = [] @ b # bs \<and> h' = h @ map uninstall_event [] @ [uninstall_event b]
       \<and> all_succeed e h []
       \<and> execSync e (h @ map uninstall_event []) (uninstall_command b) = Inl err"
      by simp
    then show ?thesis by blast
  next
    case (Inr out)
    with Cons.prems have "run_batches e bs (h @ [uninstall_event b]) = (Inl err, h')" by simp
    from Cons.IH [OF this] obtain d f r where
      "bs = d @ f # r" "h' = (h @ [uninstall_event b]) @ map uninstall_event d @ [uninstall_event f]"
      "all_succeed e (h @ [uninstall_event b]) d"
      "execSync e ((h @ [uninstall_event b]) @ map uninstall_event d) (uninstall_command f) = Inl err"
      by blast
    with Inr have "b # bs = (b # d) @ f # r \<and> h' = h @ map uninstall_event (b # d) @ [uninstall_event f]
       \<and> all_succeed e h (b # d)
       \<and> execSync e (h @ map uninstall_event (b # d)) (uninstall_command f) = Inl err"
      by simp
    then show ?thesis by blast
  qed
qed

text \<open>
  Claim C5. For a non-empty combined list of unused packages, \<open>removeUnused\<close> issues
  the uninstall commands for the consecutive batches of at most 10 packages, in order
  (sizes 10, 10, 3 for 23 packages). When all commands succeed it issues them all and
  returns. When the command of a batch is the first to fail, \<open>removeUnused\<close> stops
  there and throws that error: the commands issued are those of the batches before it
  and its own, and nothing else (no later batch, no command that undoes an earlier one),
  and \<open>fixIssues\<close> records the unused category as failed with the message of that
  error. Conversely, a result of \<open>removeUnused\<close> arises in no other way.
\<close>

theorem removeUnused_batches_of_ten:
  assumes "checkUnused e protectedPackages h = (Inr unused, h1)"
    and "allUnused = report_dependencies unused @ report_devDependencies unused"
    and "allUnused \<noteq> []"
  shows "concat (spec_batches 10 allUnused) = allUnused
     \<and> (\<forall>b \<in> set (spec_batches 10 allUnused). 0 < length b \<and> length b \<le> 10)
     \<and> (length allUnused = 23 \<longrightarrow> map length (spec_batches 10 allUnused) = [10, 10, 3])
     \<and> (all_succeed e h1 (spec_batches 10 allUnused) \<longrightarrow>
          removeUnused e protectedPackages force h
            = (Inr (), h1 @ map uninstall_event (spec_batches 10 allUnused)))
     \<and> (\<forall>finished failed rest err.
          spec_batches 10 allUnused = finished @ failed # rest
          \<and> all_succeed e h1 finished
          \<and> execSync e (h1 @ map uninstall_event finished) (uninstall_command failed) = Inl err
          \<longrightarrow> removeUnused e protectedPackages force h
                = (Inl err, h1 @ map uninstall_event finished @ [uninstall_event failed])
              \<and> (opt_all options \<or> opt_unused options \<longrightarrow>
                   (\<exists>others. fst (fixIssues e protectedPackages options h)
                      = \<lparr>fix_type = ''unused'', fix_success = False, fix_error = Some (message err)\<rparr>
                        # others)))
     \<and> (case fst (removeUnused e protectedPackages force h) of
          Inr u \<Rightarrow>
            snd (removeUnused e protectedPackages force h)
              = h1 @ map uninstall_event (spec_batches 10 allUnused)
            \<and> all_succeed e h1 (spec_batches 10 allUnused)
        | Inl err \<Rightarrow>
            (\<exists>finished failed rest.
               spec_batches 10 allUnused = finished @ failed # rest
               \<and> snd (removeUnused e protectedPackages force h)
                   = h1 @ map uninstall_event finished @ [uninstall_event failed]
               \<and> all_succeed e h1 finished
               \<and> execSync e (h1 @ map uninstall_event finished) (uninstall_command failed) = Inl err))
     \<and> (opt_all options \<or> opt_unused options \<longrightarrow>
          (case fst (removeUnused e protectedPackages (opt_force options) h) of
             Inr u \<Rightarrow>
               (\<exists>others. fst (fixIssues e protectedPackages options h)
                  = \<lparr>fix_type = ''unused'', fix_success = True, fix_error = None\<rparr> # others)
           | Inl err \<Rightarrow>
               (\<exists>others. fst (fixIssues e protectedPackages options h)
                  = \<lparr>fix_type = ''unused'', fix_success = False, fix_error = Some (message err)\<rparr> # others)))"
proof -
  have r: "removeUnused e protectedPackages f h = run_batches e (spec_batches 10 allUnused) h1" for f
    by (simp add: removeUnused_run_batches assms(1) assms(2))
  have 1: "concat (spec_batches 10 allUnused) = allUnused"
    by (simp add: concat_spec_batches)
  have 2: "\<forall>b \<in> set (spec_batches 10 allUnused). 0 < length b \<and> length b \<le> 10"
    using spec_batches_sizes by blast
  have 3: "length allUnused = 23 \<longrightarrow> map length (spec_batches 10 allUnused) = [10, 10, 3]"
    by (simp add: batches_of_23)
  have 4: "all_succeed e h1 (spec_batches 10 allUnused) \<longrightarrow>
          removeUnused e protectedPackages force h
            = (Inr (), h1 @ map uninstall_event (spec_batches 10 allUnused))"
    by (simp add: r run_batches_forward_ok)
  have 7: "opt_all options \<or> opt_unused options \<longrightarrow>
          (case fst (removeUnused e protectedPackages (opt_force options) h) of
             Inr u \<Rightarrow>
               (\<exists>others. fst (fixIssues e protectedPackages options h)
                  = \<lparr>fix_type = ''unused'', fix_success = True, fix_error = None\<rparr> # others)
           | Inl err \<Rightarrow>
               (\<exists>others. fst (fixIssues e protectedPackages options h)
                  = \<lparr>fix_type = ''unused'', fix_success = False, fix_error = Some (message err)\<rparr> # others))"
  proof
    assume req: "opt_all options \<or> opt_unused options"
    from unused_entry_first [OF req] obtain others where
      "fst (fixIssues e protectedPackages options h)
         = entry_for ''unused'' (fst (removeUnused e protectedPackages (opt_force options) h)) # others"
      by blast
    then show "case fst (removeUnused e protectedPackages (opt_force options) h) of
             Inr u \<Rightarrow>
               (\<exists>others. fst (fixIssues e protectedPackages options h)
                  = \<lparr>fix_type = ''unused'', fix_success = True, fix_error = None\<rparr> # others)
           | Inl err \<Rightarrow>
               (\<exists>others. fst (fixIssues e protectedPackages options h)
                  = \<lparr>fix_type = ''unused'', fix_success = False, fix_error = Some (message err)\<rparr> # others)"
      by (simp add: entry_for_def split: sum.splits)
  qed
  have 5: "\<forall>finished failed rest err.
          spec_batches 10 allUnused = finished @ failed # rest
          \<and> all_succeed e h1 finished
          \<and> execSync e (h1 @ map uninstall_event finished) (uninstall_command failed) = Inl err
          \<longrightarrow> removeUnused e protectedPackages force h
                = (Inl err, h1 @ map uninstall_event finished @ [uninstall_event failed])
              \<and> (opt_all options \<or> opt_unused options \<longrightarrow>
                   (\<exists>others. fst (fixIssues e protectedPackages options h)
                      = \<lparr>fix_type = ''unused'', fix_success = False, fix_error = Some (message err)\<rparr>
                        # others))"
  proof (intro allI impI conjI)
    fix finished failed rest err
    assume a: "spec_batches 10 allUnused = finished @ failed # rest
          \<and> all_succeed e h1 finished
          \<and> execSync e (h1 @ map uninstall_event finished) (uninstall_command failed) = Inl err"
    then have k: "removeUnused e protectedPackages f h
        = (Inl err, h1 @ map uninstall_event finished @ [uninstall_event failed])" for f
      by (simp add: r run_batches_forward_fail)
    show "removeUnused e protectedPackages force h
        = (Inl err, h1 @ map uninstall_event finished @ [uninstall_event failed])"
      by (rule k)
    assume req: "opt_all options \<or> opt_unused options"
    from unused_entry_first [OF req] obtain others where
      "fst (fixIssues e protectedPackages options h)
         = entry_for ''unused'' (fst (removeUnused e protectedPackages (opt_force options) h)) # others"
      by blast
    then have "fst (fixIssues e protectedPackages options h)
        = \<lparr>fix_type = ''unused'', fix_success = False, fix_error = Some (message err)\<rparr> # others"
      by (simp add: k entry_for_def)
    then show "\<exists>others. fst (fixIssues e protectedPackages options h)
        = \<lparr>fix_type = ''unused'', fix_success = False, fix_error = Some (message err)\<rparr> # others"
      by blast
  qed
  have 6: "case fst (removeUnused e protectedPackages force h) of
          Inr u \<Rightarrow>
            snd (removeUnused e protectedPackages force h)
              = h1 @ map uninstall_event (spec_batches 10 allUnused)
            \<and> all_succeed e h1 (spec_batches 10 allUnused)
        | Inl err \<Rightarrow>
            (\<exists>finished failed rest.
               spec_batches 10 allUnused = finished @ failed # rest
               \<and> snd (removeUnused e protectedPackages force h)
                   = h1 @ map uninstall_event finished @ [uninstall_event failed]
               \<and> all_succeed e h1 finished
               \<and> execSync e (h1 @ map uninstall_event finished) (uninstall_command failed) = Inl err)"
  proof (cases "run_batches e (spec_batches 10 allUnused) h1")
    case (Pair res h')
    show ?thesis
    proof (cases res)
      case (Inr u)
      with Pair r [of force] run_batches_ok [of e "spec_batches 10 allUnused" h1 u h']
        run_batches_ok_all_succeed [of e "spec_batches 10 allUnused" h1 u h']
      show ?thesis by simp
    next
      case (Inl err)
      with Pair r [of force] run_batches_fail_first [of e "spec_batches 10 allUnused" h1 err h']
      show ?thesis by simp
    qed
  qed
  from 1 2 3 4 5 6 7 show ?thesis
    by (intro conjI)
qed

lemma failing_checkUnused:
  "checkUnused failing_env builtin_protectedPackages [] = (Inr many_report, [Depcheck])"
  by (simp add: checkUnused_def failing_env_def many_packages_def many_report_def safe_to_remove_def
      startsWith_def includesSub_def builtin_protectedPackages_def sublist_code Let_def)

lemma many_batches:
  "spec_batches 10 many_packages =
     [[''p01'', ''p02'', ''p03'', ''p04'', ''p05'', ''p06'', ''p07'', ''p08'', ''p09'', ''p10''],
      [''p11'', ''p12'', ''p13'', ''p14'', ''p15'', ''p16'', ''p17'', ''p18'', ''p19'', ''p20''],
      [''p21'', ''p22'', ''p23'']]"
  by (simp add: batches_of_23 many_packages_def)

lemma failing_removeUnused:
  "removeUnused failing_env builtin_protectedPackages force [] =
     (Inl \<lparr>message = ''Command failed: '' @ second_batch_command, stdout = Some []\<rparr>,
      [Depcheck, Exec ''npm uninstall p01 p02 p03 p04 p05 p06 p07 p08 p09 p10'',
       Exec second_batch_command])"
proof -
  have "report_dependencies many_report @ report_devDependencies many_report = many_packages"
    by (simp add: many_report_def)
  then show ?thesis
    unfolding removeUnused_run_batches failing_checkUnused
    by (simp add: many_batches uninstall_command_def uninstall_event_def failing_env_def
        second_batch_command_def)
qed

theorem removeUnused_batches_of_ten_witness:
  "map length (spec_batches 10 many_packages) = [10, 10, 3]
   \<and> all_succeed failing_env [Depcheck]
        [[''p01'', ''p02'', ''p03'', ''p04'', ''p05'', ''p06'', ''p07'', ''p08'', ''p09'', ''p10'']]
   \<and> execSync failing_env
        [Depcheck, Exec ''npm uninstall p01 p02 p03 p04 p05 p06 p07 p08 p09 p10'']
        second_batch_command
       = Inl \<lparr>message = ''Command failed: '' @ second_batch_command, stdout = Some []\<rparr>
   \<and> removeUnused failing_env builtin_protectedPackages False [] =
       (Inl \<lparr>message = ''Command failed: '' @ second_batch_command, stdout = Some []\<rparr>,
        [Depcheck, Exec ''npm uninstall p01 p02 p03 p04 p05 p06 p07 p08 p09 p10'',
         Exec second_batch_command])
   \<and> fst (fixIssues failing_env builtin_protectedPackages only_unused []) =
       [\<lparr>fix_type = ''unused'', fix_success = False,
         fix_error = Some (''Command failed: '' @ second_batch_command)\<rparr>]"
proof -
  let ?b1 = "[''p01'', ''p02'', ''p03'', ''p04'', ''p05'', ''p06'', ''p07'', ''p08'', ''p09'', ''p10'']"
  let ?b2 = "[''p11'', ''p12'', ''p13'', ''p14'', ''p15'', ''p16'', ''p17'', ''p18'', ''p19'', ''p20'']"
  let ?err = "\<lparr>message = ''Command failed: '' @ second_batch_command, stdout = Some []\<rparr>"
  have a: "many_packages = report_dependencies many_report @ report_devDependencies many_report"
    by (simp add: many_report_def)
  have n: "many_packages \<noteq> []"
    by (simp add: many_packages_def)
  note t = removeUnused_batches_of_ten [OF failing_checkUnused a n, of False only_unused]
  have l: "length many_packages = 23"
    by (simp add: many_packages_def)
  from t [THEN conjunct2, THEN conjunct2, THEN conjunct1] l
  have 1: "map length (spec_batches 10 many_packages) = [10, 10, 3]"
    by simp
  have c: "uninstall_command ?b2 = second_batch_command"
    "uninstall_event ?b1 = Exec ''npm uninstall p01 p02 p03 p04 p05 p06 p07 p08 p09 p10''"
    "uninstall_event ?b2 = Exec second_batch_command"
    by (simp_all add: uninstall_command_def uninstall_event_def second_batch_command_def)
  have s: "all_succeed failing_env [Depcheck] [?b1]"
    by (simp add: failing_env_def uninstall_command_def second_batch_command_def)
  have f: "execSync failing_env ([Depcheck] @ map uninstall_event [?b1]) (uninstall_command ?b2) = Inl ?err"
    by (simp add: c failing_env_def)
  have d: "spec_batches 10 many_packages = [?b1] @ ?b2 # [[''p21'', ''p22'', ''p23'']]"
    by (simp add: many_batches)
  have u: "opt_all only_unused \<or> opt_unused only_unused"
    by (simp add: only_unused_def)
  from t [THEN conjunct2, THEN conjunct2, THEN conjunct2, THEN conjunct2, THEN conjunct1,
      rule_format, of "[?b1]" ?b2 "[[''p21'', ''p22'', ''p23'']]" ?err] d s f
  have k: "removeUnused failing_env builtin_protectedPackages False []
        = (Inl ?err, [Depcheck] @ map uninstall_event [?b1] @ [uninstall_event ?b2])
      \<and> (opt_all only_unused \<or> opt_unused only_unused \<longrightarrow>
           (\<exists>others. fst (fixIssues failing_env builtin_protectedPackages only_unused [])
              = \<lparr>fix_type = ''unused'', fix_success = False, fix_error = Some (message ?err)\<rparr> # others))"
    by blast
  with u obtain others where o: "fst (fixIssues failing_env builtin_protectedPackages only_unused [])
      = \<lparr>fix_type = ''unused'', fix_success = False,
         fix_error = Some (''Command failed: '' @ second_batch_command)\<rparr> # others"
    by auto
  have "length (fst (fixIssues failing_env builtin_protectedPackages only_unused [])) = 1"
    unfolding fixIssues_def failing_removeUnused
    by (simp add: only_unused_def Let_def push_result_def)
  with o have "others = []" by simp
  with o 1 k s f show ?thesis by (simp add: c)
qed

subsection \<open>Queries of the package manager\<close>

lemma parse_outdated_eq:
  "parse_outdated e text =
     (case JSON_parse e text of
        Inl msg \<Rightarrow> Inl (SyntaxError msg)
      | Inr v \<Rightarrow> if v = JNull then Inl (TypeError ''Cannot convert undefined or null to object'')
                 else Inr (without_chalk v))"
  by (simp add: parse_outdated_def without_chalk_def split: sum.splits json.splits)

lemma get_prop_field:
  "get_prop v k = (if v = JNull
     then Inl (TypeError (''Cannot read properties of null (reading '' @ k @ '')''))
     else Inr (field v k))"
  by (cases v) (simp_all add: field_def)

lemma parse_audit_eq:
  "parse_audit e text =
     (case JSON_parse e text of
        Inl msg \<Rightarrow> Inl (SyntaxError msg)
      | Inr v \<Rightarrow> if v = JNull
                 then Inl (TypeError (''Cannot read properties of null (reading vulnerabilities)''))
                 else Inr (audit_of v))"
  by (simp add: parse_audit_def get_prop_field audit_of_def split: sum.splits)

lemma checkOutdated_query:
  "fst (checkOutdated e h) =
     Inr (query_result without_chalk (JObj []) e (execSync e h ''npm outdated --json''))"
  by (simp add: checkOutdated_def Let_def parse_outdated_eq query_result_def output_text_def
      SyntaxError_def TypeError_def split: sum.splits option.splits)

lemma checkVulnerabilities_query:
  "fst (checkVulnerabilities e h) =
     Inr (query_result audit_of empty_audit e (execSync e h ''npm audit --json''))"
  by (simp add: checkVulnerabilities_def Let_def parse_audit_eq query_result_def output_text_def
      SyntaxError_def TypeError_def split: sum.splits option.splits)


text \<open>
  Claim C4, as amended. Whatever the command does, \<open>checkOutdated\<close> and
  \<open>checkVulnerabilities\<close> return and never throw. A failure of the command is not
  fatal: if it left standard output, the output is parsed, and the parsed result is
  returned (the report without \<open>chalk\<close>; the audit's vulnerabilities and metadata)
  unless it is \<open>null\<close>. The empty result is returned when there is no output, when
  the output does not parse, and when it parses to \<open>null\<close>.
\<close>

theorem queries_parse_output_of_failed_command:
  "fst (checkOutdated e h)
     = Inr (query_result without_chalk (JObj []) e (execSync e h ''npm outdated --json''))
   \<and> fst (checkVulnerabilities e h)
     = Inr (query_result audit_of empty_audit e (execSync e h ''npm audit --json''))
   \<and> (\<forall>err out v. stdout err = Some out \<and> out \<noteq> [] \<and> JSON_parse e out = Inr v \<and> v \<noteq> JNull
         \<longrightarrow> query_result process fallback e (Inl err) = process v)
   \<and> (\<forall>err. stdout err = None \<or> stdout err = Some []
         \<longrightarrow> query_result process fallback e (Inl err) = fallback)
   \<and> (\<forall>err out msg. stdout err = Some out \<and> JSON_parse e out = Inl msg
         \<longrightarrow> query_result process fallback e (Inl err) = fallback)
   \<and> (\<forall>err out. stdout err = Some out \<and> JSON_parse e out = Inr JNull
         \<longrightarrow> query_result process fallback e (Inl err) = fallback)"
proof (intro conjI allI impI)
  show "fst (checkOutdated e h)
     = Inr (query_result without_chalk (JObj []) e (execSync e h ''npm outdated --json''))"
    by (rule checkOutdated_query)
  show "fst (checkVulnerabilities e h)
     = Inr (query_result audit_of empty_audit e (execSync e h ''npm audit --json''))"
    by (rule checkVulnerabilities_query)
qed (auto simp: query_result_def output_text_def)

theorem queries_parse_output_of_failed_command_witness:
  "fst (checkVulnerabilities audit_env []) =
     Inr \<lparr>audit_vulnerabilities = JObj [(''lodash'', JObj [(''severity'', JStr ''high'')])],
          audit_metadata = JObj []\<rparr>"
proof -
  have "fst (checkVulnerabilities audit_env [])
     = Inr (query_result audit_of empty_audit audit_env (execSync audit_env [] ''npm audit --json''))"
    by (rule queries_parse_output_of_failed_command [THEN conjunct2, THEN conjunct1])
  then show ?thesis
    by (simp add: query_result_def output_text_def audit_env_def audit_text_def audit_of_def field_def)
qed

text \<open>
  The claim as it stands fails where a failed command prints \<open>null\<close>: the output is
  there and parses, and the result is the empty one, not the parsed value.
\<close>

theorem null_output_counterexample:
  "execSync null_output_env [] ''npm outdated --json''
     = Inl \<lparr>message = ''Command failed: npm outdated --json'', stdout = Some ''null''\<rparr>
   \<and> JSON_parse null_output_env ''null'' = Inr JNull
   \<and> fst (checkOutdated null_output_env []) = Inr (JObj [])
   \<and> fst (checkOutdated null_output_env []) \<noteq> Inr JNull
   \<and> fst (checkVulnerabilities null_output_env []) = Inr empty_audit"
  by (simp add: null_output_env_def checkOutdated_def checkVulnerabilities_def parse_outdated_def
      parse_audit_def Let_def TypeError_def)

lemma without_chalk_keys: "without_chalk v = JObj entries \<Longrightarrow> ''chalk'' \<notin> fst ` set entries"
  by (auto simp: without_chalk_def split: json.splits)

text \<open>
  Claim C8. Whenever the output of \<open>npm outdated --json\<close> parses to a report,
  \<open>checkOutdated\<close> returns the report without the entry of \<open>chalk\<close>; no object it
  returns has such an entry; and when \<open>chalk\<close> is the only package of the report, the
  result is the empty object.
\<close>

theorem checkOutdated_drops_chalk:
  "(\<forall>out entries.
      output_text (execSync e h ''npm outdated --json'') = Some out
      \<and> JSON_parse e out = Inr (JObj entries)
      \<longrightarrow> fst (checkOutdated e h) = Inr (JObj (filter (\<lambda>(k, v). k \<noteq> ''chalk'') entries)))
   \<and> (\<forall>entries. fst (checkOutdated e h) = Inr (JObj entries) \<longrightarrow> ''chalk'' \<notin> fst ` set entries)
   \<and> (\<forall>out info.
        output_text (execSync e h ''npm outdated --json'') = Some out
        \<and> JSON_parse e out = Inr (JObj [(''chalk'', info)])
        \<longrightarrow> fst (checkOutdated e h) = Inr (JObj []))"
proof (intro conjI allI impI)
  fix out entries
  assume "output_text (execSync e h ''npm outdated --json'') = Some out
      \<and> JSON_parse e out = Inr (JObj entries)"
  then show "fst (checkOutdated e h) = Inr (JObj (filter (\<lambda>(k, v). k \<noteq> ''chalk'') entries))"
    by (simp add: checkOutdated_query query_result_def without_chalk_def)
next
  fix entries
  assume "fst (checkOutdated e h) = Inr (JObj entries)"
  then have q: "query_result without_chalk (JObj []) e (execSync e h ''npm outdated --json'') = JObj entries"
    by (simp add: checkOutdated_query)
  show "''chalk'' \<notin> fst ` set entries"
  proof (cases "output_text (execSync e h ''npm outdated --json'')")
    case None
    with q show ?thesis by (simp add: query_result_def)
  next
    case (Some out)
    show ?thesis
    proof (cases "JSON_parse e out")
      case (Inl msg)
      with Some q show ?thesis by (simp add: query_result_def)
    next
      case (Inr v)
      with Some q have "JObj [] = JObj entries \<or> without_chalk v = JObj entries"
        by (simp add: query_result_def split: if_splits)
      then show ?thesis using without_chalk_keys by auto
    qed
  qed
next
  fix out info
  assume "output_text (execSync e h ''npm outdated --json'') = Some out
        \<and> JSON_parse e out = Inr (JObj [(''chalk'', info)])"
  then show "fst (checkOutdated e h) = Inr (JObj [])"
    by (simp add: checkOutdated_query query_result_def without_chalk_def)
qed

theorem checkOutdated_drops_chalk_witness:
  "output_text (execSync chalk_only_env [] ''npm outdated --json'') = Some chalk_text
   \<and> JSON_parse chalk_only_env chalk_text = Inr (JObj [(''chalk'', chalk_entry)])
   \<and> fst (checkOutdated chalk_only_env []) = Inr (JObj [])"
proof -
  have a: "output_text (execSync chalk_only_env [] ''npm outdated --json'') = Some chalk_text
      \<and> JSON_parse chalk_only_env chalk_text = Inr (JObj [(''chalk'', chalk_entry)])"
    by (simp add: output_text_def chalk_only_env_def chalk_text_def)
  have "fst (checkOutdated chalk_only_env []) = Inr (JObj [])"
    by (rule checkOutdated_drops_chalk [THEN conjunct2, THEN conjunct2, rule_format, OF a])
  with a show ?thesis by simp
qed

end
